theory Spec2Isabelle
  imports Complex_Main "HOL-Library.Sublist"
begin

section \<open>Login and captcha pipeline of \<^verbatim>\<open>main.py\<close>\<close>

text \<open>
  A shallow embedding of the captcha solver and the login attempt loop of
  \<^verbatim>\<open>src/main.py\<close>. The libraries the script calls (requests, BeautifulSoup, PIL,
  pytesseract, json, the clock, the console) are parameters of the model, collected in
  the records \<open>pil\<close> and \<open>env\<close>. Every call into the outside world threads an
  abstract world state and is logged in a trace, so that what the script sends, and in
  which order, can be stated. An exception is a value \<open>Inl e\<close> of the result.

  Python strings are modelled as \<^typ>\<open>string\<close>, a character standing for the code
  point of the same number, so that the strings of the model are the Python strings over
  the code points below 256; the floating-point reading of \<^verbatim>\<open>time.time()\<close> is a real
  number; the contrast factors are the reals 1.2, 1.5, 1.8. Console output
  (\<^verbatim>\<open>print\<close>) and the debug file dumps are not modelled.
\<close>

subsection \<open>Strings\<close>

text \<open>The character class \<^verbatim>\<open>[0-9A-Za-z]\<close> of the regular expression in \<^verbatim>\<open>_clean_text\<close>,
  as its three ranges.\<close>

definition in_class :: "char \<Rightarrow> bool" where
  "in_class c =
     (let n = (of_char c :: nat)
      in (48 \<le> n \<and> n \<le> 57) \<or> (65 \<le> n \<and> n \<le> 90) \<or> (97 \<le> n \<and> n \<le> 122))"

text \<open>\<^verbatim>\<open>re.sub(r"[^0-9A-Za-z]", "", text)\<close>: scanning from the left, each character that
  matches the negated class is replaced by the empty string; the others are copied.\<close>

fun clean_text :: "string \<Rightarrow> string" where
  "clean_text [] = []"
| "clean_text (c # cs) = (if in_class c then [c] else []) @ clean_text cs"

text \<open>The 62 characters a captcha code is made of, written out.\<close>

definition alnum_chars :: string where
  "alnum_chars = ''0123456789ABCDEFGHIJKLMNOPQRSTUVWXYZabcdefghijklmnopqrstuvwxyz''"

text \<open>Lines 250 to 252 (and 230 to 233): the cleaned text is taken as the code exactly
  when it has four characters.\<close>

definition accept_text :: "string \<Rightarrow> string option" where
  "accept_text txt =
     (let cleaned = clean_text txt in if length cleaned = 4 then Some cleaned else None)"

text \<open>\<^verbatim>\<open>needle in hay\<close> on strings.\<close>

definition starts_with :: "string \<Rightarrow> string \<Rightarrow> bool" where
  "starts_with s p = (take (length p) s = p)"

fun contains :: "string \<Rightarrow> string \<Rightarrow> bool" where
  "contains [] needle = (needle = [])"
| "contains (c # cs) needle = (if starts_with (c # cs) needle then True else contains cs needle)"

text \<open>\<^verbatim>\<open>str.strip()\<close> removes the characters for which \<^verbatim>\<open>str.isspace()\<close> holds. Below
  256 these are the code points 9 to 13, 28 to 32, 133 (next line) and 160 (no-break
  space).\<close>

definition is_space :: "char \<Rightarrow> bool" where
  "is_space c =
     (let n = (of_char c :: nat)
      in (9 \<le> n \<and> n \<le> 13) \<or> (28 \<le> n \<and> n \<le> 32) \<or> n = 133 \<or> n = 160)"

definition strip :: "string \<Rightarrow> string" where
  "strip s = rev (dropWhile is_space (rev (dropWhile is_space s)))"

text \<open>\<^verbatim>\<open>str.lower()\<close>: below 256 the upper-case letters are the code points 65 to 90 and
  192 to 222 without 215 (the multiplication sign), each 32 below its lower-case
  letter.\<close>

definition lower_char :: "char \<Rightarrow> char" where
  "lower_char c =
     (let n = (of_char c :: nat)
      in if (65 \<le> n \<and> n \<le> 90) \<or> (192 \<le> n \<and> n \<le> 222 \<and> n \<noteq> 215)
         then char_of (n + 32) else c)"

definition lower :: "string \<Rightarrow> string" where
  "lower s = map lower_char s"

subsection \<open>The image candidate generator\<close>

text \<open>The PIL operations \<^verbatim>\<open>_variants\<close> and the remote adapter use, over an
  abstract type of images. They are taken to be total functions of their arguments.\<close>

datatype img_filter =
  SHARPEN
| UnsharpMask nat nat nat
| MedianFilter nat
| MinFilter nat
| MaxFilter nat

record 'i pil =
  convert :: "'i \<Rightarrow> string \<Rightarrow> 'i"
  width :: "'i \<Rightarrow> nat"
  height :: "'i \<Rightarrow> nat"
  resize_bicubic :: "'i \<Rightarrow> nat \<times> nat \<Rightarrow> 'i"
  autocontrast :: "'i \<Rightarrow> 'i"
  filter_img :: "'i \<Rightarrow> img_filter \<Rightarrow> 'i"
  enhance_contrast :: "'i \<Rightarrow> real \<Rightarrow> 'i"
  point :: "'i \<Rightarrow> (int \<Rightarrow> int) \<Rightarrow> string \<Rightarrow> 'i"
  invert :: "'i \<Rightarrow> 'i"
  save_png :: "'i \<Rightarrow> string"

definition scales :: "nat list" where
  "scales = [2, 3, 4]"

definition thresholds :: "int list" where
  "thresholds = [60, 75, 90, 105, 120, 135, 150, 165, 180, 195]"

definition contrasts :: "real list" where
  "contrasts = [1.2, 1.5, 1.8]"

text \<open>\<^verbatim>\<open>lambda x, t=thresh: 255 if x > t else 0\<close>\<close>

definition cut_at :: "int \<Rightarrow> int \<Rightarrow> int" where
  "cut_at t x = (if x > t then 255 else 0)"

text \<open>The three nested loops of \<^verbatim>\<open>_variants\<close>, innermost first. Each takes the
  list \<^verbatim>\<open>variants\<close> built so far and returns it with this iteration's images appended.\<close>

definition thresh_body :: "'i pil \<Rightarrow> 'i \<Rightarrow> 'i list \<Rightarrow> int \<Rightarrow> 'i list" where
  "thresh_body P enhanced acc thresh =
     (let bw = point P enhanced (cut_at thresh) ''1'';
          acc1 = acc @ [bw]
      in acc1 @ [invert P (convert P bw ''L'')])"

definition contrast_body :: "'i pil \<Rightarrow> 'i \<Rightarrow> 'i list \<Rightarrow> real \<Rightarrow> 'i list" where
  "contrast_body P base acc contrast =
     (let enhanced = enhance_contrast P base contrast
      in foldl (thresh_body P enhanced) (acc @ [enhanced]) thresholds)"

definition scale_body :: "'i pil \<Rightarrow> 'i \<Rightarrow> 'i list \<Rightarrow> nat \<Rightarrow> 'i list" where
  "scale_body P gray acc scale =
     (let resized = resize_bicubic P gray (width P gray * scale, height P gray * scale);
          base = autocontrast P resized;
          acc1 = acc @ [base];
          acc2 = acc1 @ [filter_img P base SHARPEN];
          acc3 = acc2 @ [filter_img P base (UnsharpMask 1 150 3)];
          acc4 = acc3 @ [filter_img P base (MedianFilter 3)];
          acc5 = acc4 @ [filter_img P base (MinFilter 3)];
          acc6 = acc5 @ [filter_img P base (MaxFilter 3)]
      in foldl (contrast_body P base) acc6 contrasts)"

definition variants :: "'i pil \<Rightarrow> 'i \<Rightarrow> 'i list" where
  "variants P img = (let gray = convert P img ''L'' in foldl (scale_body P gray) [] scales)"

text \<open>The generator as section 4.1 of the specification words it: for each scale the
  base image and its five filtered siblings, then for each contrast the enhanced image
  followed, for each threshold, by the binarised image and its inverse.\<close>

definition spec_thresholds :: "int list" where
  "spec_thresholds = map (\<lambda>k. 60 + 15 * int k) [0..<10]"

definition spec_contrast_block :: "'i pil \<Rightarrow> 'i \<Rightarrow> real \<Rightarrow> 'i list" where
  "spec_contrast_block P base contrast =
     (let enhanced = enhance_contrast P base contrast
      in enhanced #
         concat (map (\<lambda>t. let bw = point P enhanced (cut_at t) ''1''
                            in [bw, invert P (convert P bw ''L'')]) spec_thresholds))"

definition spec_scale_block :: "'i pil \<Rightarrow> 'i \<Rightarrow> nat \<Rightarrow> 'i list" where
  "spec_scale_block P gray s =
     (let base = autocontrast P (resize_bicubic P gray (width P gray * s, height P gray * s))
      in [base,
          filter_img P base SHARPEN,
          filter_img P base (UnsharpMask 1 150 3),
          filter_img P base (MedianFilter 3),
          filter_img P base (MinFilter 3),
          filter_img P base (MaxFilter 3)]
         @ concat (map (spec_contrast_block P base) [1.2, 1.5, 1.8]))"

definition spec_variants :: "'i pil \<Rightarrow> 'i \<Rightarrow> 'i list" where
  "spec_variants P img =
     concat (map (spec_scale_block P (convert P img ''L'')) [2, 3, 4])"

subsection \<open>Values, exceptions, requests\<close>

text \<open>What \<^verbatim>\<open>json.loads\<close> returns. A dictionary is an association list with distinct
  keys; the float values NaN and Infinity are not represented.\<close>

datatype json =
  JNull
| JBool bool
| JInt int
| JFloat real
| JStr string
| JList "json list"
| JDict "(string \<times> json) list"

text \<open>The exceptions the script raises or lets through. \<open>RequestException\<close> stands for
  \<^verbatim>\<open>requests.RequestException\<close> and its subclasses, \<open>OtherException\<close> for any other
  subclass of \<^verbatim>\<open>Exception\<close>, \<open>BaseException\<close> for what \<^verbatim>\<open>except Exception\<close> does
  not catch (KeyboardInterrupt, SystemExit).\<close>

datatype error =
  LoginError string
| RequestException string
| ValueError string
| EOFError
| TypeError string
| AttributeError string
| KeyError string
| OtherException string
| BaseException string

definition is_Exception :: "error \<Rightarrow> bool" where
  "is_Exception e = (case e of BaseException _ \<Rightarrow> False | _ \<Rightarrow> True)"

definition is_LoginError :: "error \<Rightarrow> bool" where
  "is_LoginError e = (case e of LoginError _ \<Rightarrow> True | _ \<Rightarrow> False)"

definition is_RequestException :: "error \<Rightarrow> bool" where
  "is_RequestException e = (case e of RequestException _ \<Rightarrow> True | _ \<Rightarrow> False)"

text \<open>Python truth value, \<^verbatim>\<open>x == 1\<close>, \<^verbatim>\<open>x.get(k)\<close> and \<^verbatim>\<open>x.get(k, d)\<close> on such values.
  \<^verbatim>\<open>get\<close> on anything but a dictionary raises AttributeError; a missing key and a
  JSON null both give \<^verbatim>\<open>None\<close>.\<close>

fun truthy :: "json \<Rightarrow> bool" where
  "truthy JNull = False"
| "truthy (JBool b) = b"
| "truthy (JInt n) = (n \<noteq> 0)"
| "truthy (JFloat r) = (r \<noteq> 0)"
| "truthy (JStr s) = (s \<noteq> [])"
| "truthy (JList xs) = (xs \<noteq> [])"
| "truthy (JDict d) = (d \<noteq> [])"

fun eq_one :: "json \<Rightarrow> bool" where
  "eq_one (JInt n) = (n = 1)"
| "eq_one (JBool b) = b"
| "eq_one (JFloat r) = (r = 1)"
| "eq_one _ = False"

definition py_get_or :: "json \<Rightarrow> string \<Rightarrow> json \<Rightarrow> error + json" where
  "py_get_or j k d =
     (case j of
        JDict kvs \<Rightarrow> Inr (case map_of kvs k of None \<Rightarrow> d | Some v \<Rightarrow> v)
      | _ \<Rightarrow> Inl (AttributeError ''get''))"

definition py_get :: "json \<Rightarrow> string \<Rightarrow> error + json" where
  "py_get j k = py_get_or j k JNull"

definition is_dict :: "json \<Rightarrow> bool" where
  "is_dict j = (case j of JDict _ \<Rightarrow> True | _ \<Rightarrow> False)"

text \<open>\<^verbatim>\<open>d[k] = v\<close> on a dictionary kept in insertion order.\<close>

fun dict_set :: "('k \<times> 'v) list \<Rightarrow> 'k \<Rightarrow> 'v \<Rightarrow> ('k \<times> 'v) list" where
  "dict_set [] k v = [(k, v)]"
| "dict_set (p # ps) k v = (if fst p = k then (k, v) # ps else p # dict_set ps k v)"

text \<open>\<^verbatim>\<open>str(n)\<close> for an integer; \<open>digit_char\<close> is only applied to numbers below 10.\<close>

definition digit_char :: "nat \<Rightarrow> char" where
  "digit_char d = ''0123456789'' ! d"

function show_nat :: "nat \<Rightarrow> string" where
  "show_nat n = (if n < 10 then [digit_char n] else show_nat (n div 10) @ [digit_char (n mod 10)])"
  by pat_completeness auto
termination
  by (relation "measure id") auto

declare show_nat.simps [simp del]

definition show_int :: "int \<Rightarrow> string" where
  "show_int i = (if i < 0 then CHR ''-'' # show_nat (nat (- i)) else show_nat (nat i))"

datatype http_method = GET | POST

text \<open>One call of \<^verbatim>\<open>session.get\<close>, \<^verbatim>\<open>session.post\<close>, \<^verbatim>\<open>requests.get\<close> or
  \<^verbatim>\<open>requests.post\<close>; \<open>req_session\<close> tells whether it goes through the session.\<close>

record request =
  req_method :: http_method
  req_session :: bool
  req_url :: string
  req_data :: "(string \<times> json) list"
  req_params :: "(string \<times> json) list"
  req_json :: "json option"
  req_headers :: "(string \<times> string) list"
  req_timeout :: nat

text \<open>A response: \<open>content_type\<close> is the Content-Type header when there is one,
  \<open>resp_json\<close> what \<^verbatim>\<open>resp.json()\<close> returns, \<open>None\<close> when it raises ValueError.\<close>

record response =
  status_code :: int
  resp_text :: string
  resp_content :: string
  content_type :: "string option"
  resp_json :: "json option"

text \<open>What BeautifulSoup finds in a page, for the three queries the script makes: the
  form with id \<^verbatim>\<open>loginForm\<close> (its attributes and those of the \<^verbatim>\<open>input\<close> elements
  inside it), the element \<^verbatim>\<open>#captchaImage\<close>, and the \<^verbatim>\<open>input\<close> named
  \<^verbatim>\<open>__RequestVerificationToken\<close>.\<close>

type_synonym attrs = "(string \<times> string) list"

record soup =
  find_login_form :: "(attrs \<times> attrs list) option"
  select_captcha_image :: "attrs option"
  find_token_input :: "attrs option"

definition attr_get :: "attrs \<Rightarrow> string \<Rightarrow> string \<Rightarrow> string" where
  "attr_get a k d = (case map_of a k of None \<Rightarrow> d | Some v \<Rightarrow> v)"

subsection \<open>Configuration, the outside world, the trace\<close>

text \<open>The module-level constants read from \<^verbatim>\<open>config.json\<close>. \<open>METER_NO\<close> is the value
  of the key \<^verbatim>\<open>TAIPOWER_METER_NO\<close> as \<^verbatim>\<open>json.load\<close> returned it (line 59 neither
  converts nor checks it), the empty string when the key is missing; the addresses, the
  key of the solving service and the credentials are strings.\<close>

record config =
  LOGIN_PAGE_URL :: string
  DASHBOARD_URL :: string
  UID_METER_URL :: string
  METER_LIST_URL :: string
  USE_2CAPTCHA :: bool
  CAPTCHA_2CAPTCHA_API_KEY :: string
  USERNAME :: string
  PASSWORD :: string
  METER_NO :: json
  MAX_LOGIN_ATTEMPTS :: int
  CAPTCHA_MANUAL :: bool
  METER_DEBUG :: bool

text \<open>The libraries and the world behind them. The effectful ones take the world state
  \<open>'w\<close> (server, cookies, clock, console) and return the new one: \<open>http\<close> sends a
  request, \<open>now\<close> is \<^verbatim>\<open>time.time()\<close>, \<open>sleep\<close> is \<^verbatim>\<open>time.sleep\<close>,
  \<open>read_input\<close> is \<^verbatim>\<open>input\<close>, \<open>image_to_string\<close> runs the recognition engine on an
  image under a profile. The others are functions of their arguments:
  \<open>image_open\<close> decodes the bytes of a response, \<open>beautiful_soup\<close> parses a page,
  \<open>sub_new_date\<close> is the \<^verbatim>\<open>re.sub\<close> of line 514, \<open>str_other\<close> is \<^verbatim>\<open>str\<close> on
  floats, lists and dictionaries.\<close>

record ('w, 'i) env =
  http :: "'w \<Rightarrow> request \<Rightarrow> (error + response) \<times> 'w"
  now :: "'w \<Rightarrow> real"
  sleep :: "'w \<Rightarrow> nat \<Rightarrow> 'w"
  read_input :: "'w \<Rightarrow> string \<Rightarrow> (error + string) \<times> 'w"
  image_to_string :: "'w \<Rightarrow> 'i \<Rightarrow> string \<Rightarrow> (error + string) \<times> 'w"
  image_open :: "string \<Rightarrow> error + 'i"
  imaging :: "'i pil"
  b64encode :: "string \<Rightarrow> string"
  beautiful_soup :: "string \<Rightarrow> soup"
  urljoin :: "string \<Rightarrow> string \<Rightarrow> string"
  json_loads :: "string \<Rightarrow> json option"
  sub_new_date :: "string \<Rightarrow> string"
  str_other :: "json \<Rightarrow> string"

text \<open>The place in the script a request is sent from.\<close>

datatype call =
  LoginPage
| CaptchaImage
| Credentials
| Redirect
| MeterList
| MeterSwitch
| Dashboard
| MeterDebug
| CaptchaUpload
| CaptchaPoll

text \<open>The trace: every request sent, every sleep, every run of the recognition engine
  (with the image, the profile and what came back) and every prompt, oldest first.\<close>

datatype 'i event =
  Http call request
| Sleep nat
| Ocr 'i string "error + string"
| Input

record ('w, 'i) state =
  world :: 'w
  trace :: "'i event list"

text \<open>A loop body either goes on with a value or executes \<^verbatim>\<open>continue\<close>.\<close>

datatype 'a step = Done 'a | Continue

definition then_do ::
  "('s \<Rightarrow> (error + 'a) \<times> 's) \<Rightarrow> ('a \<Rightarrow> 's \<Rightarrow> (error + 'b) \<times> 's) \<Rightarrow> 's \<Rightarrow> (error + 'b) \<times> 's" where
  "then_do m f s = (case m s of (Inl e, s1) \<Rightarrow> (Inl e, s1) | (Inr x, s1) \<Rightarrow> f x s1)"

definition send ::
  "('w, 'i) env \<Rightarrow> call \<Rightarrow> request \<Rightarrow> ('w, 'i) state \<Rightarrow> (error + response) \<times> ('w, 'i) state" where
  "send E c rq s =
     (case http E (world s) rq of
        (r, w) \<Rightarrow> (r, \<lparr>world = w, trace = trace s @ [Http c rq]\<rparr>))"

definition pause :: "('w, 'i) env \<Rightarrow> nat \<Rightarrow> ('w, 'i) state \<Rightarrow> ('w, 'i) state" where
  "pause E n s = \<lparr>world = sleep E (world s) n, trace = trace s @ [Sleep n]\<rparr>"

definition recognise ::
  "('w, 'i) env \<Rightarrow> 'i \<Rightarrow> string \<Rightarrow> ('w, 'i) state \<Rightarrow> (error + string) \<times> ('w, 'i) state" where
  "recognise E v c s =
     (case image_to_string E (world s) v c of
        (r, w) \<Rightarrow> (r, \<lparr>world = w, trace = trace s @ [Ocr v c r]\<rparr>))"

definition ask ::
  "('w, 'i) env \<Rightarrow> string \<Rightarrow> ('w, 'i) state \<Rightarrow> (error + string) \<times> ('w, 'i) state" where
  "ask E prompt s =
     (case read_input E (world s) prompt of
        (r, w) \<Rightarrow> (r, \<lparr>world = w, trace = trace s @ [Input]\<rparr>))"

definition session_get :: "string \<Rightarrow> (string \<times> json) list \<Rightarrow> (string \<times> string) list \<Rightarrow> request" where
  "session_get u ps hs =
     \<lparr>req_method = GET, req_session = True, req_url = u, req_data = [], req_params = ps,
      req_json = None, req_headers = hs, req_timeout = 20\<rparr>"

definition session_post ::
  "string \<Rightarrow> (string \<times> json) list \<Rightarrow> json option \<Rightarrow> (string \<times> string) list \<Rightarrow> request" where
  "session_post u d j hs =
     \<lparr>req_method = POST, req_session = True, req_url = u, req_data = d, req_params = [],
      req_json = j, req_headers = hs, req_timeout = 20\<rparr>"

text \<open>\<^verbatim>\<open>resp.raise_for_status()\<close>\<close>

definition raise_for_status :: "response \<Rightarrow> error + unit" where
  "raise_for_status r =
     (if 400 \<le> status_code r \<and> status_code r < 600
      then Inl (RequestException ''HTTPError'') else Inr ())"

text \<open>\<^verbatim>\<open>str(x)\<close> on a JSON value; floats, lists and dictionaries are left to \<open>str_other\<close>.\<close>

definition py_str :: "('w, 'i) env \<Rightarrow> json \<Rightarrow> string" where
  "py_str E j =
     (case j of
        JStr s \<Rightarrow> s
      | JInt n \<Rightarrow> show_int n
      | JBool b \<Rightarrow> (if b then ''True'' else ''False'')
      | JNull \<Rightarrow> ''None''
      | _ \<Rightarrow> str_other E j)"

subsection \<open>Loading and parsing the login page\<close>

text \<open>\<^verbatim>\<open>get_login_page\<close>: the loop over the two addresses, with \<^verbatim>\<open>last_err\<close>.\<close>

fun get_login_page_loop ::
  "('w, 'i) env \<Rightarrow> string list \<Rightarrow> error option \<Rightarrow> ('w, 'i) state
     \<Rightarrow> (error + string) \<times> ('w, 'i) state" where
  "get_login_page_loop E [] last_err s =
     (case last_err of
        Some e \<Rightarrow> (Inl e, s)
      | None \<Rightarrow> (Inl (LoginError ''Unable to load login page''), s))"
| "get_login_page_loop E (u # us) last_err s =
     (case send E LoginPage (session_get u [] []) s of
        (Inl e, s1) \<Rightarrow>
          if is_RequestException e then get_login_page_loop E us (Some e) s1 else (Inl e, s1)
      | (Inr resp, s1) \<Rightarrow>
          (case raise_for_status resp of
             Inl e \<Rightarrow> get_login_page_loop E us (Some e) s1
           | Inr _ \<Rightarrow>
               if contains (resp_text resp) ''__RequestVerificationToken''
               then (Inr (resp_text resp), s1)
               else get_login_page_loop E us last_err s1))"

definition get_login_page ::
  "config \<Rightarrow> ('w, 'i) env \<Rightarrow> ('w, 'i) state \<Rightarrow> (error + string) \<times> ('w, 'i) state" where
  "get_login_page C E s =
     get_login_page_loop E
       [LOGIN_PAGE_URL C, ''https://service.taipower.com.tw/hvcs/SignOn/Module/Login''] None s"

text \<open>The loop of \<^verbatim>\<open>parse_login_form\<close> that collects the named inputs.\<close>

definition add_field :: "attrs \<Rightarrow> attrs \<Rightarrow> attrs" where
  "add_field form_fields inp =
     (case map_of inp ''name'' of
        None \<Rightarrow> form_fields
      | Some name \<Rightarrow>
          if name = [] then form_fields
          else dict_set form_fields name (attr_get inp ''value'' []))"

definition parse_login_form ::
  "config \<Rightarrow> ('w, 'i) env \<Rightarrow> string \<Rightarrow> error + (string \<times> attrs \<times> string)" where
  "parse_login_form C E html =
     (let sp = beautiful_soup E html
      in case find_login_form sp of
           None \<Rightarrow> Inl (LoginError ''Login form not found'')
         | Some (form, inputs) \<Rightarrow>
             (let action = strip (attr_get form ''action'' [])
              in if action = [] then Inl (LoginError ''Login form action not found'')
                 else
                   (let form_fields = foldl add_field [] inputs;
                        src0 = (case select_captcha_image sp of
                                  None \<Rightarrow> []
                                | Some im \<Rightarrow> strip (attr_get im ''src'' []));
                        captcha_src = (if src0 = [] then ''/hvcs/Other/Module/Chptcha'' else src0)
                    in Inr (urljoin E (LOGIN_PAGE_URL C) action, form_fields,
                            urljoin E (LOGIN_PAGE_URL C) captcha_src))))"

definition extract_token :: "('w, 'i) env \<Rightarrow> string \<Rightarrow> error + string" where
  "extract_token E html =
     (case find_token_input (beautiful_soup E html) of
        None \<Rightarrow> Inl (LoginError ''Missing __RequestVerificationToken on login page'')
      | Some inp \<Rightarrow>
          (case map_of inp ''value'' of
             None \<Rightarrow> Inl (LoginError ''Missing __RequestVerificationToken on login page'')
           | Some v \<Rightarrow>
               if v = [] then Inl (LoginError ''Missing __RequestVerificationToken on login page'')
               else Inr v))"

definition fetch_captcha ::
  "config \<Rightarrow> ('w, 'i) env \<Rightarrow> string \<Rightarrow> ('w, 'i) state \<Rightarrow> (error + 'i) \<times> ('w, 'i) state" where
  "fetch_captcha C E u s =
     (case send E CaptchaImage (session_get u [] [(''Referer'', LOGIN_PAGE_URL C)]) s of
        (Inl e, s1) \<Rightarrow> (Inl e, s1)
      | (Inr resp, s1) \<Rightarrow>
          (case raise_for_status resp of
             Inl e \<Rightarrow> (Inl e, s1)
           | Inr _ \<Rightarrow> (image_open E (resp_content resp), s1)))"

subsection \<open>The local solver\<close>

definition TESSERACT_CONFIG :: string where
  "TESSERACT_CONFIG =
     ''--psm 8 -c tessedit_char_whitelist=0123456789ABCDEFGHIJKLMNOPQRSTUVWXYZabcdefghijklmnopqrstuvwxyz''"

definition TESSERACT_ALT_CONFIG :: string where
  "TESSERACT_ALT_CONFIG =
     ''--psm 7 -c tessedit_char_whitelist=0123456789ABCDEFGHIJKLMNOPQRSTUVWXYZabcdefghijklmnopqrstuvwxyz''"

definition configs :: "string list" where
  "configs =
     [TESSERACT_CONFIG,
      TESSERACT_ALT_CONFIG,
      ''--psm 6 -c tessedit_char_whitelist=0123456789ABCDEFGHIJKLMNOPQRSTUVWXYZabcdefghijklmnopqrstuvwxyz'',
      ''--psm 10 -c tessedit_char_whitelist=0123456789ABCDEFGHIJKLMNOPQRSTUVWXYZabcdefghijklmnopqrstuvwxyz'']"

text \<open>The inner loop of \<^verbatim>\<open>ocr_captcha\<close> over the profiles, for one variant: \<open>Some code\<close>
  is the \<^verbatim>\<open>return cleaned\<close>, \<open>None\<close> the end of the loop.\<close>

fun ocr_configs_loop ::
  "('w, 'i) env \<Rightarrow> 'i \<Rightarrow> string list \<Rightarrow> ('w, 'i) state
     \<Rightarrow> (error + string option) \<times> ('w, 'i) state" where
  "ocr_configs_loop E v [] s = (Inr None, s)"
| "ocr_configs_loop E v (c # cs) s =
     (case recognise E v c s of
        (Inl e, s1) \<Rightarrow> (Inl e, s1)
      | (Inr txt, s1) \<Rightarrow>
          (case accept_text txt of
             Some cleaned \<Rightarrow> (Inr (Some cleaned), s1)
           | None \<Rightarrow> ocr_configs_loop E v cs s1))"

text \<open>The outer loop over the variants, and the \<^verbatim>\<open>return ""\<close> after it.\<close>

fun ocr_variants_loop ::
  "('w, 'i) env \<Rightarrow> 'i list \<Rightarrow> ('w, 'i) state \<Rightarrow> (error + string) \<times> ('w, 'i) state" where
  "ocr_variants_loop E [] s = (Inr [], s)"
| "ocr_variants_loop E (v # vs) s =
     (case ocr_configs_loop E v configs s of
        (Inl e, s1) \<Rightarrow> (Inl e, s1)
      | (Inr (Some cleaned), s1) \<Rightarrow> (Inr cleaned, s1)
      | (Inr None, s1) \<Rightarrow> ocr_variants_loop E vs s1)"

definition ocr_captcha ::
  "('w, 'i) env \<Rightarrow> 'i \<Rightarrow> ('w, 'i) state \<Rightarrow> (error + string) \<times> ('w, 'i) state" where
  "ocr_captcha E img s = ocr_variants_loop E (variants (imaging E) img) s"

subsection \<open>The remote solver\<close>

definition upload_request :: "config \<Rightarrow> ('w, 'i) env \<Rightarrow> 'i \<Rightarrow> request" where
  "upload_request C E img =
     (let img_b64 = b64encode E (save_png (imaging E) img)
      in \<lparr>req_method = POST, req_session = False, req_url = ''http://2captcha.com/in.php'',
          req_data = [(''key'', JStr (CAPTCHA_2CAPTCHA_API_KEY C)), (''method'', JStr ''base64''),
                      (''body'', JStr img_b64), (''json'', JInt 1)],
          req_params = [], req_json = None, req_headers = [], req_timeout = 30\<rparr>)"

definition poll_request :: "config \<Rightarrow> json \<Rightarrow> request" where
  "poll_request C captcha_id =
     \<lparr>req_method = GET, req_session = False, req_url = ''http://2captcha.com/res.php'',
      req_data = [],
      req_params = [(''key'', JStr (CAPTCHA_2CAPTCHA_API_KEY C)), (''action'', JStr ''get''),
                    (''id'', captcha_id), (''json'', JInt 1)],
      req_json = None, req_headers = [], req_timeout = 30\<rparr>"

text \<open>Lines 204 to 210: what the upload's response gives, the job id or an exception.\<close>

definition upload_reply :: "('w, 'i) env \<Rightarrow> response \<Rightarrow> error + json" where
  "upload_reply E resp =
     (case raise_for_status resp of
        Inl e \<Rightarrow> Inl e
      | Inr _ \<Rightarrow>
          (case resp_json resp of
             None \<Rightarrow> Inl (ValueError ''json'')
           | Some result \<Rightarrow>
               (case py_get result ''status'' of
                  Inl e \<Rightarrow> Inl e
                | Inr st \<Rightarrow>
                    if \<not> eq_one st
                    then Inl (LoginError (''2Captcha upload failed: '' @ py_str E result))
                    else (case result of
                            JDict kvs \<Rightarrow>
                              (case map_of kvs ''request'' of
                                 None \<Rightarrow> Inl (KeyError ''request'')
                               | Some captcha_id \<Rightarrow> Inr captcha_id)
                          | _ \<Rightarrow> Inl (TypeError ''subscript'')))))"

text \<open>Lines 226 to 236: what one poll's response gives: \<open>Some code\<close> is a \<^verbatim>\<open>return\<close>,
  \<open>None\<close> goes round the loop again.\<close>

definition poll_reply :: "('w, 'i) env \<Rightarrow> response \<Rightarrow> error + string option" where
  "poll_reply E poll =
     (case raise_for_status poll of
        Inl e \<Rightarrow> Inl e
      | Inr _ \<Rightarrow>
          (case resp_json poll of
             None \<Rightarrow> Inl (ValueError ''json'')
           | Some data \<Rightarrow>
               (case py_get data ''status'' of
                  Inl e \<Rightarrow> Inl e
                | Inr st \<Rightarrow>
                    if eq_one st
                    then (case py_get_or data ''request'' (JStr []) of
                            Inl e \<Rightarrow> Inl e
                          | Inr (JStr txt) \<Rightarrow>
                              (let code = clean_text txt
                               in if length code = 4 then Inr (Some code) else Inr (Some []))
                          | Inr _ \<Rightarrow> Inl (TypeError ''expected string''))
                    else (case py_get data ''request'' of
                            Inl e \<Rightarrow> Inl e
                          | Inr rq \<Rightarrow>
                              if rq \<noteq> JStr ''CAPCHA_NOT_READY''
                              then Inl (LoginError (''2Captcha error: '' @ py_str E data))
                              else Inr None))))"

text \<open>The polling loop. Whether it ends depends on the clock, so not returning is the
  value \<open>None\<close>.\<close>

partial_function (option) poll_loop ::
  "config \<Rightarrow> ('w, 'i) env \<Rightarrow> json \<Rightarrow> real \<Rightarrow> int \<Rightarrow> ('w, 'i) state
     \<Rightarrow> ((error + string) \<times> ('w, 'i) state) option" where
  "poll_loop C E captcha_id start timeout s =
     (if now E (world s) - start < of_int timeout
      then (case send E CaptchaPoll (poll_request C captcha_id) (pause E 5 s) of
              (Inl e, s2) \<Rightarrow> Some (Inl e, s2)
            | (Inr poll, s2) \<Rightarrow>
                (case poll_reply E poll of
                   Inl e \<Rightarrow> Some (Inl e, s2)
                 | Inr (Some code) \<Rightarrow> Some (Inr code, s2)
                 | Inr None \<Rightarrow> poll_loop C E captcha_id start timeout s2))
      else Some (Inl (LoginError ''2Captcha timeout''), s))"

declare poll_loop.simps [code]

definition solve_captcha_2captcha ::
  "config \<Rightarrow> ('w, 'i) env \<Rightarrow> 'i \<Rightarrow> int \<Rightarrow> ('w, 'i) state
     \<Rightarrow> ((error + string) \<times> ('w, 'i) state) option" where
  "solve_captcha_2captcha C E img timeout s =
     (if CAPTCHA_2CAPTCHA_API_KEY C = [] then Some (Inl (LoginError ''2Captcha API key not set''), s)
      else (case send E CaptchaUpload (upload_request C E img) s of
              (Inl e, s1) \<Rightarrow> Some (Inl e, s1)
            | (Inr resp, s1) \<Rightarrow>
                (case upload_reply E resp of
                   Inl e \<Rightarrow> Some (Inl e, s1)
                 | Inr captcha_id \<Rightarrow>
                     poll_loop C E captcha_id (now E (world s1)) timeout s1)))"

subsection \<open>Meter selection\<close>

text \<open>Lines 521 to 523, for one entry of the list: the meter number it contributes, if
  any.\<close>

definition item_meter :: "('w, 'i) env \<Rightarrow> json \<Rightarrow> error + string option" where
  "item_meter E item =
     (let grouped = (case item of
                       JDict kvs \<Rightarrow>
                         (case map_of kvs ''UserMeter_GroupbyMeter'' of None \<Rightarrow> JNull | Some g \<Rightarrow> g)
                     | _ \<Rightarrow> JNull)
      in if truthy grouped
         then (case py_get grouped ''MeterNo'' of
                 Inl e \<Rightarrow> Inl e
               | Inr m \<Rightarrow> if truthy m then Inr (Some (py_str E m)) else Inr None)
         else Inr None)"

fun meter_list_loop :: "('w, 'i) env \<Rightarrow> json list \<Rightarrow> string list \<Rightarrow> error + string list" where
  "meter_list_loop E [] meter_list = Inr meter_list"
| "meter_list_loop E (item # items) meter_list =
     (case item_meter E item of
        Inl e \<Rightarrow> Inl e
      | Inr None \<Rightarrow> meter_list_loop E items meter_list
      | Inr (Some m) \<Rightarrow> meter_list_loop E items (meter_list @ [m]))"

text \<open>Lines 507 to 517: the payload of the meter-list response.\<close>

definition meter_payload :: "('w, 'i) env \<Rightarrow> response \<Rightarrow> error + json" where
  "meter_payload E resp =
     (case resp_json resp of
        Some payload \<Rightarrow> Inr payload
      | None \<Rightarrow>
          (case json_loads E (sub_new_date E (resp_text resp)) of
             Some payload \<Rightarrow> Inr payload
           | None \<Rightarrow> Inl (LoginError ''Meter list response is not JSON'')))"

definition meter_list_request :: "config \<Rightarrow> request" where
  "meter_list_request C =
     session_post (METER_LIST_URL C) [] (Some (JDict []))
       [(''Referer'', UID_METER_URL C),
        (''X-Requested-With'', ''XMLHttpRequest''),
        (''Accept'', ''application/json, text/plain, */*''),
        (''Content-Type'', ''application/json; charset=utf-8'')]"

text \<open>Lines 526 to 537: the two requests to the meter-switch address, carrying the
  configured value as it is.\<close>

definition switch_post :: "config \<Rightarrow> json \<Rightarrow> request" where
  "switch_post C meter_no =
     session_post (UID_METER_URL C) [(''MeterNo'', meter_no)] None
       [(''Referer'', UID_METER_URL C)]"

definition switch_get :: "config \<Rightarrow> json \<Rightarrow> request" where
  "switch_get C meter_no =
     session_get (UID_METER_URL C) [(''MeterNo'', meter_no)] [(''Referer'', UID_METER_URL C)]"

text \<open>\<^verbatim>\<open>meter_no in meter_list\<close> of line 524: the list holds strings only (line 523
  appends \<^verbatim>\<open>str(...)\<close>), and a value that is not a string equals none of them.\<close>

definition in_meter_list :: "json \<Rightarrow> string list \<Rightarrow> bool" where
  "in_meter_list meter_no meter_list =
     (case meter_no of JStr m \<Rightarrow> m \<in> set meter_list | _ \<Rightarrow> False)"

definition not_found :: "('w, 'i) env \<Rightarrow> json \<Rightarrow> error" where
  "not_found E meter_no =
     LoginError (''MeterNo '' @ py_str E meter_no @ '' not found in account list'')"

text \<open>\<^verbatim>\<open>select_meter_no\<close>, lines 495 to 537. The parameter is annotated \<^verbatim>\<open>str\<close>, and
  the call of line 349 passes \<open>METER_NO\<close>.\<close>

definition select_meter_no ::
  "config \<Rightarrow> ('w, 'i) env \<Rightarrow> json \<Rightarrow> ('w, 'i) state \<Rightarrow> (error + unit) \<times> ('w, 'i) state" where
  "select_meter_no C E meter_no s =
     (if \<not> truthy meter_no then (Inr (), s)
      else
        then_do (send E MeterList (meter_list_request C)) (\<lambda>resp s1.
          if status_code resp \<ge> 400
          then (Inl (LoginError (''Meter list request failed '' @ show_int (status_code resp))), s1)
          else
            (case meter_payload E resp of
               Inl e \<Rightarrow> (Inl e, s1)
             | Inr payload \<Rightarrow>
                 (case py_get payload ''data'' of
                    Inl e \<Rightarrow> (Inl e, s1)
                  | Inr d \<Rightarrow>
                      (case meter_list_loop E (case d of JList items \<Rightarrow> items | _ \<Rightarrow> []) [] of
                         Inl e \<Rightarrow> (Inl e, s1)
                       | Inr meter_list \<Rightarrow>
                           if \<not> in_meter_list meter_no meter_list
                           then (Inl (not_found E meter_no), s1)
                           else
                             then_do (send E MeterSwitch (switch_post C meter_no)) (\<lambda>_.
                             then_do (send E MeterSwitch (switch_get C meter_no)) (\<lambda>_ s3.
                               (Inr (), s3))) s1)))) s)"

text \<open>\<^verbatim>\<open>dump_meter_debug\<close>: four more GETs; the files it writes are not modelled.\<close>

fun debug_gets ::
  "('w, 'i) env \<Rightarrow> string list \<Rightarrow> ('w, 'i) state \<Rightarrow> (error + unit) \<times> ('w, 'i) state" where
  "debug_gets E [] s = (Inr (), s)"
| "debug_gets E (u # us) s =
     (case send E MeterDebug (session_get u [] []) s of
        (Inl e, s1) \<Rightarrow> (Inl e, s1)
      | (Inr _, s1) \<Rightarrow> debug_gets E us s1)"

definition dump_meter_debug ::
  "config \<Rightarrow> ('w, 'i) env \<Rightarrow> ('w, 'i) state \<Rightarrow> (error + unit) \<times> ('w, 'i) state" where
  "dump_meter_debug C E s =
     debug_gets E
       (UID_METER_URL C #
        map (urljoin E (LOGIN_PAGE_URL C))
          [''/hvcs/Controllers/Manager/getRoleSubGroup/getRoleSubGroup'',
           ''/hvcs/Controllers/Manager/getRoleSubGroup/getMeterRoleSubGroup'',
           ''/hvcs/Controllers/Manager/getRoleSubGroup/getMeterCompetence'']) s"

subsection \<open>The login attempt loop\<close>

text \<open>Lines 272 to 294: the code to submit, or \<^verbatim>\<open>continue\<close>. In the last branch the
  \<^verbatim>\<open>continue\<close> of line 294 stands after the length test of line 292, not under it.\<close>

definition solve_phase ::
  "config \<Rightarrow> ('w, 'i) env \<Rightarrow> 'i \<Rightarrow> ('w, 'i) state
     \<Rightarrow> ((error + string step) \<times> ('w, 'i) state) option" where
  "solve_phase C E captcha_img s =
     (if USE_2CAPTCHA C
      then (case solve_captcha_2captcha C E captcha_img 120 s of
              None \<Rightarrow> None
            | Some (Inr captcha_code, s1) \<Rightarrow> Some (Inr (Done captcha_code), s1)
            | Some (Inl e, s1) \<Rightarrow>
                if is_Exception e
                then (case ocr_captcha E captcha_img s1 of
                        (Inl e2, s2) \<Rightarrow> Some (Inl e2, s2)
                      | (Inr captcha_code, s2) \<Rightarrow> Some (Inr (Done captcha_code), s2))
                else Some (Inl e, s1))
      else (case ocr_captcha E captcha_img s of
              (Inl e, s1) \<Rightarrow> Some (Inl e, s1)
            | (Inr captcha_code, s1) \<Rightarrow>
                if CAPTCHA_MANUAL C
                then (case ask E ''Enter captcha (4 chars): '' s1 of
                        (Inl e, s2) \<Rightarrow>
                          if e = EOFError then Some (Inr Continue, s2) else Some (Inl e, s2)
                      | (Inr line, s2) \<Rightarrow>
                          (let manual = strip line
                           in if length manual = 4 then Some (Inr (Done manual), s2)
                              else Some (Inr Continue, s2)))
                else (let s2 = (if length captcha_code \<noteq> 4 then s1 else s1)
                      in Some (Inr Continue, s2))))"

text \<open>Lines 296 to 313: the credential POST.\<close>

definition credentials_request ::
  "config \<Rightarrow> string \<Rightarrow> attrs \<Rightarrow> string \<Rightarrow> string \<Rightarrow> request" where
  "credentials_request C action_url form_fields token captcha_code =
     (let payload = foldl (\<lambda>d (k, v). dict_set d k v) form_fields
                      [(''__RequestVerificationToken'', token),
                       (''UserName'', USERNAME C),
                       (''UserPwd'', PASSWORD C),
                       (''Captcha'', captcha_code)]
      in session_post action_url (map (\<lambda>(k, v). (k, JStr v)) payload) None
           [(''Referer'', LOGIN_PAGE_URL C), (''RequestVerificationToken'', token)])"

text \<open>Lines 320 to 345: \<^verbatim>\<open>login_ok\<close> from the response, following the redirect when the
  JSON names one.\<close>

definition interpret_result ::
  "config \<Rightarrow> ('w, 'i) env \<Rightarrow> response \<Rightarrow> ('w, 'i) state \<Rightarrow> (error + bool) \<times> ('w, 'i) state" where
  "interpret_result C E resp s =
     (if starts_with (lower (case content_type resp of None \<Rightarrow> [] | Some t \<Rightarrow> t)) ''application/json''
      then
        (let data = (case resp_json resp of None \<Rightarrow> JDict [] | Some d \<Rightarrow> d)
         in case py_get data ''data'' of
              Inl e \<Rightarrow> (Inl e, s)
            | Inr d \<Rightarrow>
                (let data_block = (if is_dict d then d else JDict []);
                     status = (case py_get data_block ''Status'' of Inr v \<Rightarrow> v | Inl _ \<Rightarrow> JNull);
                     redirect_url = (case py_get data_block ''Url'' of Inr v \<Rightarrow> v | Inl _ \<Rightarrow> JNull)
                 in if truthy status \<and> truthy redirect_url
                    then (case redirect_url of
                            JStr u \<Rightarrow>
                              (case send E Redirect (session_get (urljoin E (LOGIN_PAGE_URL C) u) [] []) s of
                                 (Inl e, s1) \<Rightarrow> (Inl e, s1)
                               | (Inr _, s1) \<Rightarrow> (Inr True, s1))
                          | _ \<Rightarrow> (Inl (TypeError ''urljoin''), s))
                    else if truthy status then (Inr True, s)
                    else (Inr False, s)))
      else (Inr (status_code resp < 400), s))"

text \<open>Lines 347 to 353: meter selection; a LoginError from it sleeps and continues.\<close>

definition select_phase ::
  "config \<Rightarrow> ('w, 'i) env \<Rightarrow> bool \<Rightarrow> ('w, 'i) state \<Rightarrow> (error + unit step) \<times> ('w, 'i) state" where
  "select_phase C E login_ok s =
     (if login_ok \<and> truthy (METER_NO C)
      then (case select_meter_no C E (METER_NO C) s of
              (Inl e, s1) \<Rightarrow>
                if is_LoginError e then (Inr Continue, pause E 1 s1) else (Inl e, s1)
            | (Inr _, s1) \<Rightarrow> (Inr (Done ()), s1))
      else (Inr (Done ()), s))"

text \<open>Lines 354 to 368: the dashboard fetch and the marker test; \<open>Done html\<close> is the
  \<^verbatim>\<open>return dash.text\<close>.\<close>

definition verify_dashboard ::
  "config \<Rightarrow> ('w, 'i) env \<Rightarrow> ('w, 'i) state \<Rightarrow> (error + string step) \<times> ('w, 'i) state" where
  "verify_dashboard C E s =
     then_do (send E Dashboard (session_get (DASHBOARD_URL C) [] [])) (\<lambda>dash.
     then_do (if METER_DEBUG C then dump_meter_debug C E else (\<lambda>s1. (Inr (), s1))) (\<lambda>_ s2.
       if contains (resp_text dash) ''card_1'' then (Inr (Done (resp_text dash)), s2)
       else (Inr Continue, pause E 1 s2))) s"

text \<open>Lines 296 to 368, once a code is there.\<close>

definition submit_phase ::
  "config \<Rightarrow> ('w, 'i) env \<Rightarrow> string \<Rightarrow> attrs \<Rightarrow> string \<Rightarrow> string \<Rightarrow> ('w, 'i) state
     \<Rightarrow> (error + string step) \<times> ('w, 'i) state" where
  "submit_phase C E action_url form_fields token captcha_code s =
     then_do (send E Credentials (credentials_request C action_url form_fields token captcha_code))
       (\<lambda>resp.
     then_do (interpret_result C E resp) (\<lambda>login_ok.
     then_do (select_phase C E login_ok) (\<lambda>sel.
       case sel of Continue \<Rightarrow> (\<lambda>s3. (Inr Continue, s3)) | Done _ \<Rightarrow> verify_dashboard C E))) s"

text \<open>One iteration of the \<^verbatim>\<open>for attempt in range(...)\<close> loop.\<close>

definition attempt_body ::
  "config \<Rightarrow> ('w, 'i) env \<Rightarrow> int \<Rightarrow> ('w, 'i) state
     \<Rightarrow> ((error + string step) \<times> ('w, 'i) state) option" where
  "attempt_body C E attempt s =
     (case get_login_page C E s of
        (Inl e, s1) \<Rightarrow> Some (Inl e, s1)
      | (Inr html, s1) \<Rightarrow>
          (case parse_login_form C E html of
             Inl e \<Rightarrow> Some (Inl e, s1)
           | Inr (action_url, form_fields, captcha_url) \<Rightarrow>
               (case extract_token E html of
                  Inl e \<Rightarrow> Some (Inl e, s1)
                | Inr token \<Rightarrow>
                    (case fetch_captcha C E captcha_url s1 of
                       (Inl e, s2) \<Rightarrow> Some (Inl e, s2)
                     | (Inr captcha_img, s2) \<Rightarrow>
                         (case solve_phase C E captcha_img s2 of
                            None \<Rightarrow> None
                          | Some (Inl e, s3) \<Rightarrow> Some (Inl e, s3)
                          | Some (Inr Continue, s3) \<Rightarrow> Some (Inr Continue, s3)
                          | Some (Inr (Done captcha_code), s3) \<Rightarrow>
                              Some (submit_phase C E action_url form_fields token captcha_code s3))))))"

text \<open>The loop, and the \<^verbatim>\<open>raise\<close> after it.\<close>

fun attempts_loop ::
  "config \<Rightarrow> ('w, 'i) env \<Rightarrow> int list \<Rightarrow> ('w, 'i) state
     \<Rightarrow> ((error + string) \<times> ('w, 'i) state) option" where
  "attempts_loop C E [] s = Some (Inl (LoginError ''Login failed after multiple attempts''), s)"
| "attempts_loop C E (attempt # rest) s =
     (case attempt_body C E attempt s of
        None \<Rightarrow> None
      | Some (Inl e, s1) \<Rightarrow> Some (Inl e, s1)
      | Some (Inr (Done html), s1) \<Rightarrow> Some (Inr html, s1)
      | Some (Inr Continue, s1) \<Rightarrow> attempts_loop C E rest s1)"

definition login_and_get_dashboard ::
  "config \<Rightarrow> ('w, 'i) env \<Rightarrow> ('w, 'i) state \<Rightarrow> ((error + string) \<times> ('w, 'i) state) option" where
  "login_and_get_dashboard C E s =
     (if USERNAME C = [] \<or> PASSWORD C = []
      then Some (Inl (LoginError ''TAIPOWER_USERNAME or TAIPOWER_PASSWORD not set''), s)
      else attempts_loop C E [1..MAX_LOGIN_ATTEMPTS C] s)"

subsection \<open>Reading the trace\<close>

text \<open>The (variant, profile) pair of a recognition event, and the code it was accepted
  with, if it was.\<close>

definition ocr_pair :: "'i event \<Rightarrow> ('i \<times> string) option" where
  "ocr_pair e = (case e of Ocr v c r \<Rightarrow> Some (v, c) | _ \<Rightarrow> None)"

definition yields :: "'i event \<Rightarrow> string option" where
  "yields e = (case e of Ocr v c (Inr t) \<Rightarrow> accept_text t | _ \<Rightarrow> None)"

text \<open>\<open>sent k e\<close>: the event is a request sent from the place \<open>k\<close> of the script.\<close>

definition sent :: "call \<Rightarrow> 'i event \<Rightarrow> bool" where
  "sent k e = (case e of Http c rq \<Rightarrow> c = k | _ \<Rightarrow> False)"

definition is_credential_post :: "'i event \<Rightarrow> bool" where
  "is_credential_post e = sent Credentials e"

definition is_login_fetch :: "'i event \<Rightarrow> bool" where
  "is_login_fetch e = sent LoginPage e"

text \<open>\<open>n\<close> rounds of the polling loop in the trace: a sleep of 5, then the poll.\<close>

definition polls :: "config \<Rightarrow> json \<Rightarrow> nat \<Rightarrow> 'i event list" where
  "polls C cid n = concat (replicate n [Sleep 5, Http CaptchaPoll (poll_request C cid)])"

text \<open>The two loops of \<^verbatim>\<open>ocr_captcha\<close> as one loop over the (variant, profile) pairs, in
  the order of \<open>List.product\<close>: variants outermost, profiles innermost.\<close>

fun scan_pairs ::
  "('w, 'i) env \<Rightarrow> ('i \<times> string) list \<Rightarrow> ('w, 'i) state \<Rightarrow> (error + string) \<times> ('w, 'i) state" where
  "scan_pairs E [] s = (Inr [], s)"
| "scan_pairs E (p # ps) s =
     (case recognise E (fst p) (snd p) s of
        (Inl e, s1) \<Rightarrow> (Inl e, s1)
      | (Inr t, s1) \<Rightarrow>
          (case accept_text t of
             Some cleaned \<Rightarrow> (Inr cleaned, s1)
           | None \<Rightarrow> scan_pairs E ps s1))"

subsection \<open>Well-behaved responses\<close>

text \<open>A login page response from which the attempt gets a form, its action and a token,
  and a captcha response from which it gets an image.\<close>

definition valid_login_page :: "config \<Rightarrow> ('w, 'i) env \<Rightarrow> response \<Rightarrow> bool" where
  "valid_login_page C E resp =
     (raise_for_status resp = Inr ()
      \<and> contains (resp_text resp) ''__RequestVerificationToken''
      \<and> (case parse_login_form C E (resp_text resp) of Inr _ \<Rightarrow> True | Inl _ \<Rightarrow> False)
      \<and> (case extract_token E (resp_text resp) of Inr _ \<Rightarrow> True | Inl _ \<Rightarrow> False))"

definition valid_captcha :: "('w, 'i) env \<Rightarrow> response \<Rightarrow> bool" where
  "valid_captcha E resp =
     (raise_for_status resp = Inr ()
      \<and> (case image_open E (resp_content resp) of Inr _ \<Rightarrow> True | Inl _ \<Rightarrow> False))"



subsection \<open>Test doubles\<close>

text \<open>Concrete libraries and servers on which the theorems below are run: images are
  numbers, the world is a counter of the calls made so far.\<close>

definition stub_pil :: "nat pil" where
  "stub_pil =
     \<lparr>convert = (\<lambda>i m. i), width = (\<lambda>i. 60), height = (\<lambda>i. 20),
      resize_bicubic = (\<lambda>i (w, h). i + w), autocontrast = (\<lambda>i. i),
      filter_img = (\<lambda>i f. i), enhance_contrast = (\<lambda>i c. i),
      point = (\<lambda>i f m. i), invert = (\<lambda>i. i), save_png = (\<lambda>i. ''png'')\<rparr>"

text \<open>A server that answers every request by its address alone: the login page, the
  captcha image, a JSON success without redirect for the credential POST, a dashboard
  with the marker, a meter list with one meter, and a remote solving service whose
  answer, once cleaned, has three characters.\<close>

definition stub_json :: "string \<Rightarrow> json option" where
  "stub_json u =
     (if u = ''https://portal/login/submit''
        then Some (JDict [(''data'', JDict [(''Status'', JBool True)])])
      else if u = ''https://portal/meters''
        then Some (JDict [(''data'',
               JList [JDict [(''UserMeter_GroupbyMeter'', JDict [(''MeterNo'', JInt 12345)])]])])
      else if u = ''http://2captcha.com/in.php''
        then Some (JDict [(''status'', JInt 1), (''request'', JStr ''job-1'')])
      else if u = ''http://2captcha.com/res.php''
        then Some (JDict [(''status'', JInt 1), (''request'', JStr ''a-b-c'')])
      else None)"

definition stub_http :: "request \<Rightarrow> error + response" where
  "stub_http rq =
     Inr \<lparr>status_code = 200,
          resp_text = (if req_url rq = ''https://portal/login''
                         then ''<form id=loginForm><input name=__RequestVerificationToken>''
                       else if req_url rq = ''https://portal/dashboard''
                         then ''<div id=card_1>''
                       else []),
          resp_content = ''image bytes'',
          content_type = (case stub_json (req_url rq) of
                            None \<Rightarrow> Some ''text/html''
                          | Some _ \<Rightarrow> Some ''application/json; charset=utf-8''),
          resp_json = stub_json (req_url rq)\<rparr>"

definition stub_soup :: soup where
  "stub_soup =
     \<lparr>find_login_form =
        Some ([(''id'', ''loginForm''), (''action'', ''/submit'')],
              [[(''name'', ''__RequestVerificationToken''), (''value'', ''tok'')],
               [(''name'', ''Captcha'')]]),
      select_captcha_image = Some [(''id'', ''captchaImage''), (''src'', ''/captcha'')],
      find_token_input = Some [(''name'', ''__RequestVerificationToken''), (''value'', ''tok'')]\<rparr>"

text \<open>The libraries over that server. The world counts the calls made so far (and is the
  clock); the recognition engine answers \<open>ocr n\<close> when called in world \<open>n\<close>.\<close>

definition stub_env :: "(nat \<Rightarrow> string) \<Rightarrow> (nat, nat) env" where
  "stub_env ocr =
     \<lparr>http = (\<lambda>w rq. (stub_http rq, w + 1)),
      now = (\<lambda>w. real w),
      sleep = (\<lambda>w n. w + n),
      read_input = (\<lambda>w prompt. (Inr '' wxyz '', w + 1)),
      image_to_string = (\<lambda>w v c. (Inr (ocr w), w + 1)),
      image_open = (\<lambda>bytes. Inr 7),
      imaging = stub_pil,
      b64encode = (\<lambda>bytes. bytes),
      beautiful_soup = (\<lambda>html. stub_soup),
      urljoin = (\<lambda>base u. base @ u),
      json_loads = (\<lambda>t. None),
      sub_new_date = (\<lambda>t. t),
      str_other = (\<lambda>j. ''?'')\<rparr>"

definition stub_config :: config where
  "stub_config =
     \<lparr>LOGIN_PAGE_URL = ''https://portal/login'',
      DASHBOARD_URL = ''https://portal/dashboard'',
      UID_METER_URL = ''https://portal/switch'',
      METER_LIST_URL = ''https://portal/meters'',
      USE_2CAPTCHA = False,
      CAPTCHA_2CAPTCHA_API_KEY = ''key'',
      USERNAME = ''user'',
      PASSWORD = ''secret'',
      METER_NO = JStr [],
      MAX_LOGIN_ATTEMPTS = 3,
      CAPTCHA_MANUAL = False,
      METER_DEBUG = False\<rparr>"

definition start :: "(nat, nat) state" where
  "start = \<lparr>world = 0, trace = []\<rparr>"

text \<open>A recognition engine whose sixth answer is the first with four alphanumeric
  characters.\<close>

definition ocr6 :: "nat \<Rightarrow> string" where
  "ocr6 n = (if n = 5 then ''A b-1 2'' else ''zz'')"

text \<open>The same configuration with remote solving switched on.\<close>

definition remote_config :: config where
  "remote_config = stub_config\<lparr>USE_2CAPTCHA := True\<rparr>"

text \<open>Remote solving switched on without a key for the solving service, so that the
  adapter raises and the local solver is called.\<close>

definition fallback_config :: config where
  "fallback_config = stub_config\<lparr>USE_2CAPTCHA := True, CAPTCHA_2CAPTCHA_API_KEY := []\<rparr>"

text \<open>What the test server answers to the upload and to the poll, and the states of a
  run of the remote adapter against it.\<close>

definition upload_answer :: response where
  "upload_answer = \<lparr>status_code = 200, resp_text = [], resp_content = ''image bytes'',
      content_type = Some ''application/json; charset=utf-8'',
      resp_json = Some (JDict [(''status'', JInt 1), (''request'', JStr ''job-1'')])\<rparr>"

definition poll_answer :: response where
  "poll_answer = \<lparr>status_code = 200, resp_text = [], resp_content = ''image bytes'',
      content_type = Some ''application/json; charset=utf-8'',
      resp_json = Some (JDict [(''status'', JInt 1), (''request'', JStr ''a-b-c'')])\<rparr>"

definition before_upload :: "(nat, nat) state" where
  "before_upload = \<lparr>world = 2, trace = []\<rparr>"

definition after_upload :: "(nat, nat) state" where
  "after_upload = \<lparr>world = 3,
      trace = [Http CaptchaUpload (upload_request remote_config (stub_env (\<lambda>n. [])) 7)]\<rparr>"

definition after_poll :: "(nat, nat) state" where
  "after_poll = \<lparr>world = 9,
      trace = [Http CaptchaUpload (upload_request remote_config (stub_env (\<lambda>n. [])) 7),
               Sleep 5,
               Http CaptchaPoll (poll_request remote_config (JStr ''job-1''))]\<rparr>"

definition timed_out :: "(nat, nat) state" where
  "timed_out = \<lparr>world = 123, trace = []\<rparr>"

text \<open>What the test server answers to the credential POST and to an unknown address, the
  request that carries an empty code, and the states around its submission.\<close>

definition submit_answer :: response where
  "submit_answer = \<lparr>status_code = 200, resp_text = [], resp_content = ''image bytes'',
      content_type = Some ''application/json; charset=utf-8'',
      resp_json = Some (JDict [(''data'', JDict [(''Status'', JBool True)])])\<rparr>"

definition blank_answer :: response where
  "blank_answer = \<lparr>status_code = 200, resp_text = [], resp_content = ''image bytes'',
      content_type = Some ''text/html'', resp_json = None\<rparr>"

definition empty_code_request :: request where
  "empty_code_request =
     credentials_request remote_config ''https://portal/login/submit''
       [(''__RequestVerificationToken'', ''tok''), (''Captcha'', [])] ''tok'' []"

definition before_submit :: "(nat, nat) state" where
  "before_submit = \<lparr>world = 9, trace = []\<rparr>"

definition after_submit :: "(nat, nat) state" where
  "after_submit = \<lparr>world = 10, trace = [Http Credentials empty_code_request]\<rparr>"

definition no_marker_config :: config where
  "no_marker_config = remote_config\<lparr>DASHBOARD_URL := ''https://portal/other''\<rparr>"










section \<open>Properties\<close>

subsection \<open>The candidate generator\<close>

lemma variants_spec: "variants P img = spec_variants P img"
  by (simp add: variants_def spec_variants_def scales_def scale_body_def contrasts_def
      contrast_body_def thresholds_def thresh_body_def spec_scale_block_def
      spec_contrast_block_def spec_thresholds_def Let_def upt_rec)

lemma length_spec_contrast_block: "length (spec_contrast_block P b c) = 21"
  by (simp add: spec_contrast_block_def spec_thresholds_def Let_def upt_rec)

lemma length_spec_scale_block: "length (spec_scale_block P g s) = 69"
  by (simp add: spec_scale_block_def Let_def length_spec_contrast_block)

lemma length_spec_variants: "length (spec_variants P img) = 207"
  by (simp add: spec_variants_def length_spec_scale_block)

lemma spec_variants_block:
  "k < 3 \<Longrightarrow> take 69 (drop (69 * k) (spec_variants P img)) = spec_scale_block P (convert P img ''L'') (k + 2)"
proof -
  assume "k < 3"
  then consider "k = 0" | "k = 1" | "k = 2" by linarith
  then show ?thesis
    by cases (simp_all add: spec_variants_def length_spec_scale_block
        numeral_2_eq_2[symmetric] numeral_3_eq_3[symmetric])
qed

text \<open>
  Claim C5. The candidate generator is a function of the bitmap alone (it takes no state
  and returns none) and, for every bitmap, produces exactly the 207 images of the
  documented sweep in the documented order: the scales 2, 3, 4 in this order, one block
  of 69 images each (the base, its five filtered siblings, then for each of the three
  contrasts the enhanced image and, for the ten thresholds 60, 75, ..., 195 in ascending
  order, the binarised image followed by its inverse).
\<close>

theorem variants_enumeration:
  "variants P img = spec_variants P img
   \<and> length (variants P img) = 207
   \<and> (\<forall>k<3. take 69 (drop (69 * k) (variants P img))
              = spec_scale_block P (convert P img ''L'') (k + 2))
   \<and> scales = [2, 3, 4]
   \<and> thresholds = spec_thresholds
   \<and> sorted_wrt (<) thresholds \<and> hd thresholds = 60 \<and> last thresholds = 195"
  using spec_variants_block[of _ P img]
  by (simp add: variants_spec length_spec_variants scales_def)
     (simp add: thresholds_def spec_thresholds_def upt_rec)

theorem variants_enumeration_witness:
  "(1::nat) < 3
   \<and> length (variants stub_pil 7) = 207
   \<and> take 69 (drop 69 (variants stub_pil 7)) = spec_scale_block stub_pil 7 3
   \<and> variants stub_pil 7 ! 69 = 187"
proof -
  have every: "\<forall>k<3. take 69 (drop (69 * k) (variants stub_pil 7))
                 = spec_scale_block stub_pil (convert stub_pil 7 ''L'') (k + 2)"
    and len: "length (variants stub_pil 7) = 207"
    using variants_enumeration[of stub_pil 7] by blast+
  have a: "take 69 (drop 69 (variants stub_pil 7)) = spec_scale_block stub_pil 7 3"
    using every[rule_format, of 1] by (simp add: stub_pil_def numeral_3_eq_3)
  have "variants stub_pil 7 ! 69 = take 69 (drop 69 (variants stub_pil 7)) ! 0"
    using len by simp
  also have "\<dots> = 187"
    unfolding a by (simp add: spec_scale_block_def stub_pil_def)
  finally show ?thesis using a len by simp
qed

subsection \<open>Normalisation\<close>

lemma clean_text_filter: "clean_text s = filter in_class s"
  by (induction s) auto

lemma in_class_alnum: "in_class c \<longleftrightarrow> c \<in> set alnum_chars"
proof (cases c)
  case (Char b0 b1 b2 b3 b4 b5 b6 b7)
  then show ?thesis
    by (cases b0; cases b1; cases b2; cases b3; cases b4; cases b5; cases b6; cases b7;
        simp add: in_class_def alnum_chars_def)
qed

lemma in_class_eq: "in_class = (\<lambda>c. c \<in> set alnum_chars)"
  by (rule ext) (rule in_class_alnum)

text \<open>
  Claim C6. For every string, normalisation returns exactly the characters of
  \<^verbatim>\<open>[0-9A-Za-z]\<close> it contains, in their original order, and the normalised string is
  accepted as a code if and only if it has exactly four characters; with any other
  number of alphanumeric characters nothing is accepted.
\<close>

theorem clean_text_accept:
  "clean_text s = filter (\<lambda>c. c \<in> set alnum_chars) s
   \<and> subseq (clean_text s) s
   \<and> (accept_text s = Some code \<longleftrightarrow>
        code = filter (\<lambda>c. c \<in> set alnum_chars) s \<and> length code = 4)
   \<and> (length (filter (\<lambda>c. c \<in> set alnum_chars) s) \<noteq> 4 \<longrightarrow> accept_text s = None)"
proof -
  have eq: "filter (\<lambda>c. c \<in> set alnum_chars) s = clean_text s"
    by (simp add: clean_text_filter in_class_eq)
  show ?thesis unfolding eq
    by (auto simp: accept_text_def Let_def clean_text_filter)
qed

theorem clean_text_accept_witness:
  "clean_text '' A-b 1!2 '' = ''Ab12'' \<and> accept_text '' A-b 1!2 '' = Some ''Ab12''
   \<and> length (filter (\<lambda>c. c \<in> set alnum_chars) ''A-b 1!2 x'') \<noteq> 4
   \<and> accept_text ''A-b 1!2 x'' = None"
  using clean_text_accept[of "'' A-b 1!2 ''" "''Ab12''"] clean_text_accept[of "''A-b 1!2 x''"]
  by (simp add: alnum_chars_def)

subsection \<open>The local solver\<close>

lemma configs_then_scan:
  "(case ocr_configs_loop E v cs s of
      (Inl e, s1) \<Rightarrow> (Inl e, s1)
    | (Inr (Some cleaned), s1) \<Rightarrow> (Inr cleaned, s1)
    | (Inr None, s1) \<Rightarrow> scan_pairs E rest s1)
   = scan_pairs E (map (Pair v) cs @ rest) s"
proof (induction cs arbitrary: s)
  case Nil
  show ?case by simp
next
  case (Cons c cs)
  show ?case
    by (simp add: Cons.IH[symmetric] split: prod.splits sum.splits option.splits)
qed

lemma variants_loop_scan:
  "ocr_variants_loop E vs s = scan_pairs E (List.product vs configs) s"
proof (induction vs arbitrary: s)
  case Nil
  show ?case by simp
next
  case (Cons v vs)
  show ?case
    using configs_then_scan[where E=E and v=v and cs=configs and s=s and rest="List.product vs configs"]
    by (simp add: Cons.IH cong: prod.case_cong sum.case_cong option.case_cong)
qed

lemma accept_text_code:
  "accept_text txt = Some code \<Longrightarrow> length code = 4 \<and> set code \<subseteq> set alnum_chars"
  by (auto simp: accept_text_def Let_def clean_text_filter in_class_alnum split: if_splits)

lemma scan_pairs_trace:
  "scan_pairs E ps s = (Inr code, s') \<Longrightarrow>
     \<exists>evs. trace s' = trace s @ evs
       \<and> map ocr_pair evs = map Some (take (length evs) ps)
       \<and> ((code = [] \<and> length evs = length ps \<and> list_all (\<lambda>e. yields e = None) evs)
          \<or> (\<exists>pre m. evs = pre @ [m] \<and> list_all (\<lambda>e. yields e = None) pre
                \<and> yields m = Some code))"
proof (induction ps arbitrary: s)
  case Nil
  then show ?case by simp
next
  case (Cons p ps)
  obtain r w where rw: "image_to_string E (world s) (fst p) (snd p) = (r, w)"
    by (cases "image_to_string E (world s) (fst p) (snd p)")
  define s1 where "s1 = \<lparr>world = w, trace = trace s @ [Ocr (fst p) (snd p) r]\<rparr>"
  have rec: "recognise E (fst p) (snd p) s = (r, s1)"
    by (simp add: recognise_def rw s1_def)
  from Cons.prems rec obtain t where r: "r = Inr t"
    by (cases r) auto
  show ?case
  proof (cases "accept_text t")
    case None
    with Cons.prems rec r have "scan_pairs E ps s1 = (Inr code, s')" by simp
    from Cons.IH[OF this] obtain evs where
      t: "trace s' = trace s1 @ evs" and
      m: "map ocr_pair evs = map Some (take (length evs) ps)" and
      d: "(code = [] \<and> length evs = length ps \<and> list_all (\<lambda>e. yields e = None) evs)
          \<or> (\<exists>pre m. evs = pre @ [m] \<and> list_all (\<lambda>e. yields e = None) pre
                \<and> yields m = Some code)"
      by blast
    let ?e = "Ocr (fst p) (snd p) r"
    have y: "yields ?e = None" by (simp add: yields_def r None)
    have "trace s' = trace s @ (?e # evs)" using t by (simp add: s1_def)
    moreover have "map ocr_pair (?e # evs) = map Some (take (length (?e # evs)) (p # ps))"
      using m by (simp add: ocr_pair_def)
    moreover have "(code = [] \<and> length (?e # evs) = length (p # ps)
                      \<and> list_all (\<lambda>e. yields e = None) (?e # evs))
          \<or> (\<exists>pre m. ?e # evs = pre @ [m] \<and> list_all (\<lambda>e. yields e = None) pre
                \<and> yields m = Some code)"
      using d
    proof
      assume "code = [] \<and> length evs = length ps \<and> list_all (\<lambda>e. yields e = None) evs"
      then show ?thesis using y by simp
    next
      assume "\<exists>pre m. evs = pre @ [m] \<and> list_all (\<lambda>e. yields e = None) pre
                \<and> yields m = Some code"
      then obtain pre m where "evs = pre @ [m]" "list_all (\<lambda>e. yields e = None) pre"
        "yields m = Some code" by blast
      then have "?e # evs = (?e # pre) @ [m] \<and> list_all (\<lambda>e. yields e = None) (?e # pre)
          \<and> yields m = Some code" using y by simp
      then show ?thesis by blast
    qed
    ultimately show ?thesis by blast
  next
    case (Some cleaned)
    with Cons.prems rec r have eq: "code = cleaned" "s' = s1" by simp_all
    let ?e = "Ocr (fst p) (snd p) r"
    have "trace s' = trace s @ [?e]" by (simp add: eq s1_def)
    moreover have "map ocr_pair [?e] = map Some (take (length [?e]) (p # ps))"
      by (simp add: ocr_pair_def)
    moreover have "[?e] = [] @ [?e] \<and> list_all (\<lambda>e. yields e = None) []
       \<and> yields ?e = Some code" by (simp add: yields_def r Some eq)
    ultimately show ?thesis by blast
  qed
qed

lemma ocr_captcha_calls:
  assumes "ocr_captcha E img s = (Inr code, s')"
  shows "\<exists>evs. trace s' = trace s @ evs
           \<and> map ocr_pair evs
               = map Some (take (length evs) (List.product (variants (imaging E) img) configs))
           \<and> ((code = [] \<and> length evs = 828 \<and> list_all (\<lambda>e. yields e = None) evs)
              \<or> (\<exists>pre m. evs = pre @ [m] \<and> list_all (\<lambda>e. yields e = None) pre
                    \<and> yields m = Some code \<and> length code = 4
                    \<and> set code \<subseteq> set alnum_chars))"
proof -
  let ?ps = "List.product (variants (imaging E) img) configs"
  have len: "length ?ps = 828"
    by (simp add: variants_spec length_spec_variants configs_def)
  have "scan_pairs E ?ps s = (Inr code, s')"
    using assms by (simp add: ocr_captcha_def variants_loop_scan)
  from scan_pairs_trace[OF this] obtain evs where
    t: "trace s' = trace s @ evs" and
    m: "map ocr_pair evs = map Some (take (length evs) ?ps)" and
    d: "(code = [] \<and> length evs = length ?ps \<and> list_all (\<lambda>e. yields e = None) evs)
        \<or> (\<exists>pre m. evs = pre @ [m] \<and> list_all (\<lambda>e. yields e = None) pre
              \<and> yields m = Some code)"
    by blast
  have y: "length code = 4 \<and> set code \<subseteq> set alnum_chars" if "yields m = Some code" for m :: "'b event"
  proof (cases m)
    case (Ocr v c r)
    with that obtain t where "accept_text t = Some code"
      by (cases r) (auto simp: yields_def)
    then show ?thesis by (rule accept_text_code)
  qed (use that in \<open>simp_all add: yields_def\<close>)
  have d': "(code = [] \<and> length evs = 828 \<and> list_all (\<lambda>e. yields e = None) evs)
              \<or> (\<exists>pre m. evs = pre @ [m] \<and> list_all (\<lambda>e. yields e = None) pre
                    \<and> yields m = Some code \<and> length code = 4
                    \<and> set code \<subseteq> set alnum_chars)"
    using d y len by metis
  show ?thesis by (intro exI[of _ evs] conjI t m d')
qed

lemma scan_pairs_all_fail:
  assumes "\<forall>w v c. \<exists>t w'. image_to_string E w v c = (Inr t, w') \<and> accept_text t = None"
  shows "fst (scan_pairs E ps s) = Inr []"
proof (induction ps arbitrary: s)
  case Nil
  show ?case by simp
next
  case (Cons p ps)
  from assms obtain t w where rw: "image_to_string E (world s) (fst p) (snd p) = (Inr t, w)"
    and no: "accept_text t = None" by blast
  show ?case
    using Cons.IH by (simp add: recognise_def rw no)
qed

lemma ocr_captcha_all_fail:
  assumes "\<forall>w v c. \<exists>t w'. image_to_string E w v c = (Inr t, w') \<and> accept_text t = None"
  shows "fst (ocr_captcha E img s) = Inr []"
  using scan_pairs_all_fail[OF assms] by (simp add: ocr_captcha_def variants_loop_scan)

lemma ocr6_run: "fst (ocr_captcha (stub_env ocr6) 7 start) = Inr ''Ab12''"
  by (simp add: ocr_captcha_def variants_spec spec_variants_def spec_scale_block_def stub_pil_def
      stub_env_def start_def configs_def recognise_def accept_text_def in_class_def ocr6_def)

text \<open>
  Claim C4. Whenever the local solver returns, the recognition calls it made are an
  initial segment of the (variant, profile) pairs taken in generation order, with the
  four profiles (single word, single line, single block, single character: page
  segmentation modes 8, 7, 6, 10) in this order for each variant. Either it returns the
  empty string, having run all 828 pairs without one accepted result, or the last call
  it made is the first whose cleaned text has four characters, that text is what it
  returns, and no call follows; a returned code has exactly four characters, all of
  them in \<^verbatim>\<open>[0-9A-Za-z]\<close>. With an engine none of whose answers is accepted, it
  returns the empty string.
\<close>

theorem ocr_captcha_first_match:
  "(\<forall>code s'. ocr_captcha E img s = (Inr code, s') \<longrightarrow>
      (\<exists>evs. trace s' = trace s @ evs
         \<and> map ocr_pair evs
             = map Some (take (length evs) (List.product (variants (imaging E) img) configs))
         \<and> ((code = [] \<and> length evs = 828 \<and> list_all (\<lambda>e. yields e = None) evs)
            \<or> (\<exists>pre m. evs = pre @ [m] \<and> list_all (\<lambda>e. yields e = None) pre
                  \<and> yields m = Some code \<and> length code = 4
                  \<and> set code \<subseteq> set alnum_chars))))
   \<and> ((\<forall>w v c. \<exists>t w'. image_to_string E w v c = (Inr t, w') \<and> accept_text t = None)
      \<longrightarrow> fst (ocr_captcha E img s) = Inr [])
   \<and> map (take 8) configs = [''--psm 8 '', ''--psm 7 '', ''--psm 6 '', ''--psm 10'']"
proof (intro conjI allI impI)
  fix code s'
  assume "ocr_captcha E img s = (Inr code, s')"
  then show "\<exists>evs. trace s' = trace s @ evs
         \<and> map ocr_pair evs
             = map Some (take (length evs) (List.product (variants (imaging E) img) configs))
         \<and> ((code = [] \<and> length evs = 828 \<and> list_all (\<lambda>e. yields e = None) evs)
            \<or> (\<exists>pre m. evs = pre @ [m] \<and> list_all (\<lambda>e. yields e = None) pre
                  \<and> yields m = Some code \<and> length code = 4
                  \<and> set code \<subseteq> set alnum_chars))"
    by (rule ocr_captcha_calls)
next
  assume "\<forall>w v c. \<exists>t w'. image_to_string E w v c = (Inr t, w') \<and> accept_text t = None"
  then show "fst (ocr_captcha E img s) = Inr []"
    by (rule ocr_captcha_all_fail)
next
  show "map (take 8) configs = [''--psm 8 '', ''--psm 7 '', ''--psm 6 '', ''--psm 10'']"
    by (simp add: configs_def TESSERACT_CONFIG_def TESSERACT_ALT_CONFIG_def)
qed

theorem ocr_captcha_first_match_witness:
  "ocr_captcha (stub_env ocr6) 7 start
     = (Inr ''Ab12'', snd (ocr_captcha (stub_env ocr6) 7 start))
   \<and> (\<exists>evs. trace (snd (ocr_captcha (stub_env ocr6) 7 start)) = trace start @ evs
         \<and> map ocr_pair evs
             = map Some (take (length evs)
                 (List.product (variants (imaging (stub_env ocr6)) 7) configs))
         \<and> ((''Ab12'' = [] \<and> length evs = 828 \<and> list_all (\<lambda>e. yields e = None) evs)
            \<or> (\<exists>pre m. evs = pre @ [m] \<and> list_all (\<lambda>e. yields e = None) pre
                  \<and> yields m = Some ''Ab12'' \<and> length ''Ab12'' = 4
                  \<and> set ''Ab12'' \<subseteq> set alnum_chars)))
   \<and> (\<forall>w v c. \<exists>t w'. image_to_string (stub_env (\<lambda>n. ''zz'')) w v c = (Inr t, w')
          \<and> accept_text t = None)
   \<and> fst (ocr_captcha (stub_env (\<lambda>n. ''zz'')) 7 start) = Inr []"
proof -
  have run: "ocr_captcha (stub_env ocr6) 7 start
               = (Inr ''Ab12'', snd (ocr_captcha (stub_env ocr6) 7 start))"
    using ocr6_run by (simp add: prod_eq_iff)
  have fail: "\<forall>w v c. \<exists>t w'. image_to_string (stub_env (\<lambda>n. ''zz'')) w v c = (Inr t, w')
          \<and> accept_text t = None"
    by (simp add: stub_env_def accept_text_def in_class_def)
  show ?thesis
    using run fail ocr_captcha_first_match[of "stub_env ocr6" 7 start]
      ocr_captcha_first_match[of "stub_env (\<lambda>n. ''zz'')" 7 start]
    by blast
qed

subsection \<open>The local-only configuration without manual entry\<close>

lemma trace_send [simp]: "trace (snd (send E c rq s)) = trace s @ [Http c rq]"
  by (simp add: send_def split: prod.splits)

lemma send_cases:
  obtains r w where "send E c rq s = (r, \<lparr>world = w, trace = trace s @ [Http c rq]\<rparr>)"
  by (cases "http E (world s) rq") (simp add: send_def)

lemma trace_pause [simp]: "trace (pause E n s) = trace s @ [Sleep n]"
  by (simp add: pause_def)

lemma trace_recognise [simp]:
  "\<exists>r. trace (snd (recognise E v c s)) = trace s @ [Ocr v c r]"
  by (simp add: recognise_def split: prod.splits)

lemma sent_simps [simp]:
  "sent k (Http c rq) = (c = k)" "sent k (Sleep n) = False" "sent k (Ocr v cf r) = False"
  "sent k Input = False"
  by (simp_all add: sent_def)

lemma is_credential_post_eq: "is_credential_post = sent Credentials"
  by (rule ext) (simp add: is_credential_post_def)

lemma is_login_fetch_eq: "is_login_fetch = sent LoginPage"
  by (rule ext) (simp add: is_login_fetch_def)

lemma get_login_page_loop_others:
  "k \<noteq> LoginPage \<Longrightarrow>
     filter (sent k) (trace (snd (get_login_page_loop E us le s))) = filter (sent k) (trace s)"
proof (induction us arbitrary: le s)
  case Nil
  show ?case by (simp split: option.splits)
next
  case (Cons u us)
  obtain r w where sd: "send E LoginPage (session_get u [] []) s
      = (r, \<lparr>world = w, trace = trace s @ [Http LoginPage (session_get u [] [])]\<rparr>)"
    by (rule send_cases)
  show ?case using Cons.prems
    by (simp add: sd Cons.IH split: sum.splits)
qed

lemma get_login_page_loop_count:
  "length (filter (sent LoginPage) (trace (snd (get_login_page_loop E us le s))))
     \<le> length (filter (sent LoginPage) (trace s)) + length us"
proof (induction us arbitrary: le s)
  case Nil
  show ?case by (simp split: option.splits)
next
  case (Cons u us)
  obtain r w where sd: "send E LoginPage (session_get u [] []) s
      = (r, \<lparr>world = w, trace = trace s @ [Http LoginPage (session_get u [] [])]\<rparr>)"
    by (rule send_cases)
  let ?s1 = "\<lparr>world = w, trace = trace s @ [Http LoginPage (session_get u [] [])]\<rparr>"
  have ih: "\<And>le. length (filter (sent LoginPage) (trace (snd (get_login_page_loop E us le ?s1))))
     \<le> length (filter (sent LoginPage) (trace s)) + 1 + length us"
    using Cons.IH[of _ ?s1] by simp
  show ?case
    using ih by (auto simp add: sd split: sum.splits)
qed

lemma fetch_captcha_others:
  "k \<noteq> CaptchaImage \<Longrightarrow>
     filter (sent k) (trace (snd (fetch_captcha C E u s))) = filter (sent k) (trace s)"
proof -
  assume k: "k \<noteq> CaptchaImage"
  obtain r w where sd: "send E CaptchaImage (session_get u [] [(''Referer'', LOGIN_PAGE_URL C)]) s
      = (r, \<lparr>world = w, trace = trace s @ [Http CaptchaImage (session_get u [] [(''Referer'', LOGIN_PAGE_URL C)])]\<rparr>)"
    by (rule send_cases)
  show ?thesis using k by (simp add: fetch_captcha_def sd split: sum.splits)
qed

lemma scan_pairs_others:
  "filter (sent k) (trace (snd (scan_pairs E ps s))) = filter (sent k) (trace s)"
proof (induction ps arbitrary: s)
  case Nil
  show ?case by simp
next
  case (Cons p ps)
  obtain r w where rw: "image_to_string E (world s) (fst p) (snd p) = (r, w)"
    by (cases "image_to_string E (world s) (fst p) (snd p)")
  show ?case
    by (simp add: recognise_def rw Cons.IH split: sum.splits option.splits)
qed

lemma ocr_captcha_others:
  "filter (sent k) (trace (snd (ocr_captcha E img s))) = filter (sent k) (trace s)"
  by (simp add: ocr_captcha_def variants_loop_scan scan_pairs_others)

lemma get_login_page_others:
  "k \<noteq> LoginPage \<Longrightarrow>
     filter (sent k) (trace (snd (get_login_page C E s))) = filter (sent k) (trace s)"
  unfolding get_login_page_def by (rule get_login_page_loop_others)

lemma get_login_page_count:
  "length (filter (sent LoginPage) (trace (snd (get_login_page C E s))))
     \<le> length (filter (sent LoginPage) (trace s)) + 2"
  unfolding get_login_page_def
  using get_login_page_loop_count[of E "[LOGIN_PAGE_URL C, ''https://service.taipower.com.tw/hvcs/SignOn/Module/Login'']" None s]
  by (simp del: get_login_page_loop.simps)

lemma solve_phase_local:
  "\<not> USE_2CAPTCHA C \<Longrightarrow> \<not> CAPTCHA_MANUAL C \<Longrightarrow>
     solve_phase C E img s =
       Some (case ocr_captcha E img s of
               (Inl e, s1) \<Rightarrow> (Inl e, s1)
             | (Inr code, s1) \<Rightarrow> (Inr Continue, s1))"
  by (simp add: solve_phase_def split: prod.splits sum.splits)

lemma attempt_body_local:
  assumes "\<not> USE_2CAPTCHA C" "\<not> CAPTCHA_MANUAL C"
  shows "\<exists>r s'. attempt_body C E a s = Some (r, s') \<and> (\<forall>h. r \<noteq> Inr (Done h))
           \<and> filter (sent Credentials) (trace s') = filter (sent Credentials) (trace s)"
proof -
  obtain r1 s1 where g: "get_login_page C E s = (r1, s1)" by force
  have t1: "filter (sent Credentials) (trace s1) = filter (sent Credentials) (trace s)"
    using get_login_page_others[of Credentials C E s] by (simp add: g)
  have f: "filter (sent Credentials) (trace (snd (fetch_captcha C E u s1)))
             = filter (sent Credentials) (trace s)" for u
    by (simp add: fetch_captcha_others t1)
  have o: "filter (sent Credentials) (trace (snd (ocr_captcha E img (snd (fetch_captcha C E u s1)))))
             = filter (sent Credentials) (trace s)" for u img
    by (simp add: ocr_captcha_others f)
  show ?thesis
    using t1 f o
    by (auto simp add: attempt_body_def g solve_phase_local[OF assms]
        split: prod.splits sum.splits) (metis snd_conv)+
qed

lemma attempts_loop_local:
  assumes "\<not> USE_2CAPTCHA C" "\<not> CAPTCHA_MANUAL C"
  shows "\<exists>e s'. attempts_loop C E as s = Some (Inl e, s')
           \<and> filter (sent Credentials) (trace s') = filter (sent Credentials) (trace s)"
proof (induction as arbitrary: s)
  case Nil
  show ?case by simp
next
  case (Cons a as)
  from attempt_body_local[OF assms, of E a s] obtain r s1 where
    b: "attempt_body C E a s = Some (r, s1)" and nd: "\<forall>h. r \<noteq> Inr (Done h)" and
    t: "filter (sent Credentials) (trace s1) = filter (sent Credentials) (trace s)"
    by blast
  show ?case
  proof (cases r)
    case (Inl e)
    then show ?thesis using b t by simp
  next
    case (Inr st)
    with nd have "st = Continue" by (cases st) auto
    with Inr b Cons.IH[of s1] t show ?thesis by simp
  qed
qed

text \<open>
  Claim C3. With remote solving off and manual entry off, the attempt reaches the
  \<^verbatim>\<open>continue\<close> of line 294 whatever code the recognition step returned, a valid
  four-character code included; so the run sends no credential POST and never returns
  a dashboard: it ends, and it ends by raising.
\<close>

theorem local_only_never_submits:
  assumes "\<not> USE_2CAPTCHA C" and "\<not> CAPTCHA_MANUAL C"
  shows "(\<forall>img s code s1. ocr_captcha E img s = (Inr code, s1)
            \<longrightarrow> solve_phase C E img s = Some (Inr Continue, s1))
         \<and> (\<exists>e s'. login_and_get_dashboard C E s0 = Some (Inl e, s')
               \<and> filter is_credential_post (trace s') = filter is_credential_post (trace s0))"
proof -
  have "\<exists>e s'. login_and_get_dashboard C E s0 = Some (Inl e, s')
          \<and> filter (sent Credentials) (trace s') = filter (sent Credentials) (trace s0)"
    using attempts_loop_local[OF assms, of E "[1..MAX_LOGIN_ATTEMPTS C]" s0]
    by (simp add: login_and_get_dashboard_def)
  then show ?thesis
    by (simp add: is_credential_post_eq solve_phase_local[OF assms])
qed

theorem local_only_never_submits_witness:
  "\<not> USE_2CAPTCHA stub_config \<and> \<not> CAPTCHA_MANUAL stub_config
   \<and> solve_phase stub_config (stub_env (\<lambda>n. ''Ab12'')) 7 start
       = Some (Inr Continue, snd (ocr_captcha (stub_env (\<lambda>n. ''Ab12'')) 7 start))
   \<and> (\<exists>e s'. login_and_get_dashboard stub_config (stub_env (\<lambda>n. ''Ab12'')) start
                = Some (Inl e, s')
         \<and> filter is_credential_post (trace s') = [])"
proof -
  have c: "\<not> USE_2CAPTCHA stub_config" "\<not> CAPTCHA_MANUAL stub_config"
    by (simp_all add: stub_config_def)
  have run: "ocr_captcha (stub_env (\<lambda>n. ''Ab12'')) 7 start
               = (Inr ''Ab12'', snd (ocr_captcha (stub_env (\<lambda>n. ''Ab12'')) 7 start))"
    by (simp add: ocr_captcha_def variants_spec spec_variants_def spec_scale_block_def
        stub_pil_def stub_env_def start_def configs_def recognise_def accept_text_def
        in_class_def)
  show ?thesis
    using c run local_only_never_submits[OF c, of "stub_env (\<lambda>n. ''Ab12'')" start]
    by (simp add: start_def)
qed

subsection \<open>Requests per attempt\<close>

lemma scan_pairs_returns:
  assumes "\<forall>w v c. \<exists>t w'. image_to_string E w v c = (Inr t, w')"
  shows "\<exists>code s'. scan_pairs E ps s = (Inr code, s')"
proof (induction ps arbitrary: s)
  case Nil
  show ?case by simp
next
  case (Cons p ps)
  from assms obtain t w where rw: "image_to_string E (world s) (fst p) (snd p) = (Inr t, w)"
    by blast
  show ?case
    using Cons.IH by (simp add: recognise_def rw split: option.splits)
qed

lemma ocr_captcha_returns:
  assumes "\<forall>w v c. \<exists>t w'. image_to_string E w v c = (Inr t, w')"
  shows "\<exists>code s'. ocr_captcha E img s = (Inr code, s')"
  using scan_pairs_returns[OF assms] by (simp add: ocr_captcha_def variants_loop_scan)

lemma attempt_body_local_continue:
  assumes loc: "\<not> USE_2CAPTCHA C" "\<not> CAPTCHA_MANUAL C"
    and page: "\<forall>w. \<exists>resp w'. http E w (session_get (LOGIN_PAGE_URL C) [] []) = (Inr resp, w')
                  \<and> valid_login_page C E resp"
    and cap: "\<forall>w u. \<exists>resp w'. http E w (session_get u [] [(''Referer'', LOGIN_PAGE_URL C)])
                  = (Inr resp, w') \<and> valid_captcha E resp"
    and eng: "\<forall>w v c. \<exists>t w'. image_to_string E w v c = (Inr t, w')"
  shows "\<exists>s'. attempt_body C E a s = Some (Inr Continue, s')
           \<and> length (filter (sent LoginPage) (trace s')) = length (filter (sent LoginPage) (trace s)) + 1
           \<and> filter (sent Credentials) (trace s') = filter (sent Credentials) (trace s)"
proof -
  from page obtain resp w1 where
    h: "http E (world s) (session_get (LOGIN_PAGE_URL C) [] []) = (Inr resp, w1)" and
    v: "valid_login_page C E resp" by blast
  define s1 where "s1 = \<lparr>world = w1, trace = trace s @ [Http LoginPage (session_get (LOGIN_PAGE_URL C) [] [])]\<rparr>"
  have g: "get_login_page C E s = (Inr (resp_text resp), s1)"
    using v by (simp add: get_login_page_def send_def h valid_login_page_def s1_def)
  from v obtain au ff cu where p: "parse_login_form C E (resp_text resp) = Inr (au, ff, cu)"
    by (auto simp: valid_login_page_def split: sum.splits)
  from v obtain tok where t: "extract_token E (resp_text resp) = Inr tok"
    by (auto simp: valid_login_page_def split: sum.splits)
  from cap obtain cresp w2 where
    hc: "http E (world s1) (session_get cu [] [(''Referer'', LOGIN_PAGE_URL C)]) = (Inr cresp, w2)"
    and vc: "valid_captcha E cresp" by blast
  from vc obtain img where im: "image_open E (resp_content cresp) = Inr img"
    by (auto simp: valid_captcha_def split: sum.splits)
  define s2 where "s2 = \<lparr>world = w2, trace = trace s1 @ [Http CaptchaImage (session_get cu [] [(''Referer'', LOGIN_PAGE_URL C)])]\<rparr>"
  have f: "fetch_captcha C E cu s1 = (Inr img, s2)"
    using vc by (simp add: fetch_captcha_def send_def hc valid_captcha_def im s2_def)
  from ocr_captcha_returns[OF eng] obtain code s3 where o: "ocr_captcha E img s2 = (Inr code, s3)"
    by blast
  have tr: "filter (sent k) (trace s3) = filter (sent k) (trace s2)" for k
    using ocr_captcha_others[of k E img s2] by (simp add: o)
  have b: "attempt_body C E a s = Some (Inr Continue, s3)"
    by (simp add: attempt_body_def g p t f solve_phase_local[OF loc] o)
  show ?thesis
    using b by (simp add: tr s2_def s1_def)
qed

lemma attempts_loop_local_exhausted:
  assumes loc: "\<not> USE_2CAPTCHA C" "\<not> CAPTCHA_MANUAL C"
    and page: "\<forall>w. \<exists>resp w'. http E w (session_get (LOGIN_PAGE_URL C) [] []) = (Inr resp, w')
                  \<and> valid_login_page C E resp"
    and cap: "\<forall>w u. \<exists>resp w'. http E w (session_get u [] [(''Referer'', LOGIN_PAGE_URL C)])
                  = (Inr resp, w') \<and> valid_captcha E resp"
    and eng: "\<forall>w v c. \<exists>t w'. image_to_string E w v c = (Inr t, w')"
  shows "\<exists>s'. attempts_loop C E as s
                = Some (Inl (LoginError ''Login failed after multiple attempts''), s')
           \<and> length (filter (sent LoginPage) (trace s'))
               = length (filter (sent LoginPage) (trace s)) + length as
           \<and> filter (sent Credentials) (trace s') = filter (sent Credentials) (trace s)"
proof (induction as arbitrary: s)
  case Nil
  show ?case by simp
next
  case (Cons a as)
  from attempt_body_local_continue[OF loc page cap eng, of a s] obtain s1 where
    b: "attempt_body C E a s = Some (Inr Continue, s1)" and
    l: "length (filter (sent LoginPage) (trace s1)) = length (filter (sent LoginPage) (trace s)) + 1" and
    c: "filter (sent Credentials) (trace s1) = filter (sent Credentials) (trace s)"
    by blast
  from Cons.IH[of s1] show ?case
    by (simp add: b l c)
qed

lemma send_others:
  "k \<noteq> c \<Longrightarrow> filter (sent k) (trace (snd (send E c rq s))) = filter (sent k) (trace s)"
  by simp

lemma then_do_others:
  assumes "\<And>s. filter P (trace (snd (m s))) = filter P (trace s)"
    and "\<And>x s. filter P (trace (snd (f x s))) = filter P (trace s)"
  shows "filter P (trace (snd (then_do m f s))) = filter P (trace s)"
proof (cases "m s")
  case (Pair r s1)
  have 1: "filter P (trace s1) = filter P (trace s)" using assms(1)[of s] by (simp add: Pair)
  show ?thesis
  proof (cases r)
    case (Inl e)
    then show ?thesis by (simp add: then_do_def Pair 1)
  next
    case (Inr x)
    then show ?thesis using assms(2)[of x s1] by (simp add: then_do_def Pair 1)
  qed
qed

lemma poll_loop_others_aux:
  assumes k: "k \<noteq> CaptchaPoll" and run: "poll_loop C E cid st tmo s = Some y"
  shows "filter (sent k) (trace (snd y)) = filter (sent k) (trace s)"
proof (rule poll_loop.raw_induct[where P="\<lambda>C E cid st tmo s y.
          filter (sent k) (trace (snd y)) = filter (sent k) (trace s)", OF _ run])
  fix pl :: "config \<Rightarrow> ('a, 'b) env \<Rightarrow> json \<Rightarrow> real \<Rightarrow> int \<Rightarrow> ('a, 'b) state
               \<Rightarrow> ((error + string) \<times> ('a, 'b) state) option"
    and C E cid st tmo s y
  assume IH: "\<And>C E cid st tmo s y. pl C E cid st tmo s = Some y \<Longrightarrow>
                filter (sent k) (trace (snd y)) = filter (sent k) (trace s)"
    and body: "(if now E (world s) - st < real_of_int tmo
      then case send E CaptchaPoll (poll_request C cid) (pause E 5 s) of
           (Inl e, s2) \<Rightarrow> Some (Inl e, s2)
           | (Inr poll, s2) \<Rightarrow>
               (case poll_reply E poll of Inl e \<Rightarrow> Some (Inl e, s2)
               | Inr None \<Rightarrow> pl C E cid st tmo s2
               | Inr (Some code) \<Rightarrow> Some (Inr code, s2))
      else Some (Inl (LoginError ''2Captcha timeout''), s)) = Some y"
  show "filter (sent k) (trace (snd y)) = filter (sent k) (trace s)"
  proof (cases "now E (world s) - st < real_of_int tmo")
    case False
    with body show ?thesis by auto
  next
    case True
    obtain rr w where sd: "send E CaptchaPoll (poll_request C cid) (pause E 5 s)
      = (rr, \<lparr>world = w, trace = trace (pause E 5 s) @ [Http CaptchaPoll (poll_request C cid)]\<rparr>)"
      by (rule send_cases)
    let ?s2 = "\<lparr>world = w, trace = trace (pause E 5 s) @ [Http CaptchaPoll (poll_request C cid)]\<rparr>"
    have base: "filter (sent k) (trace ?s2) = filter (sent k) (trace s)"
      using k by simp
    show ?thesis
    proof (cases rr)
      case (Inl e)
      with body True sd base show ?thesis by auto
    next
      case (Inr poll)
      show ?thesis
      proof (cases "poll_reply E poll")
        case (Inl e)
        with body True sd base Inr show ?thesis by auto
      next
        case rep: (Inr oc)
        show ?thesis
        proof (cases oc)
          case None
          with body True sd Inr rep have "pl C E cid st tmo ?s2 = Some y" by simp
          from IH[OF this] base show ?thesis by simp
        next
          case (Some code)
          with body True sd base Inr rep show ?thesis by auto
        qed
      qed
    qed
  qed
qed

lemma poll_loop_others:
  assumes "poll_loop C E cid st tmo s = Some (r, s')" and "k \<noteq> CaptchaPoll"
  shows "filter (sent k) (trace s') = filter (sent k) (trace s)"
  using poll_loop_others_aux[OF assms(2) assms(1)] by simp

lemma solve_captcha_2captcha_others:
  assumes "solve_captcha_2captcha C E img tmo s = Some (r, s')"
    and "k \<noteq> CaptchaPoll" "k \<noteq> CaptchaUpload"
  shows "filter (sent k) (trace s') = filter (sent k) (trace s)"
proof -
  obtain rr w where sd: "send E CaptchaUpload (upload_request C E img) s
      = (rr, \<lparr>world = w, trace = trace s @ [Http CaptchaUpload (upload_request C E img)]\<rparr>)"
    by (rule send_cases)
  show ?thesis
    using assms poll_loop_others[where k=k and C=C and E=E and r=r and s'=s']
    by (auto simp add: solve_captcha_2captcha_def sd split: if_splits sum.splits)
qed

lemma ask_others: "filter (sent k) (trace (snd (ask E p s))) = filter (sent k) (trace s)"
  by (simp add: ask_def split: prod.splits)

lemma solve_phase_others:
  assumes "solve_phase C E img s = Some (r, s')"
    and "k \<noteq> CaptchaPoll" "k \<noteq> CaptchaUpload"
  shows "filter (sent k) (trace s') = filter (sent k) (trace s)"
proof (cases "USE_2CAPTCHA C")
  case True
  then obtain r1 s1 where sc: "solve_captcha_2captcha C E img 120 s = Some (r1, s1)"
    using assms(1) by (cases "solve_captcha_2captcha C E img 120 s") (auto simp: solve_phase_def)
  have t1: "filter (sent k) (trace s1) = filter (sent k) (trace s)"
    using solve_captcha_2captcha_others[OF sc assms(2,3)] .
  have o: "filter (sent k) (trace (snd (ocr_captcha E img s1))) = filter (sent k) (trace s)"
    by (simp add: ocr_captcha_others t1)
  show ?thesis
    using assms(1) True t1 o
    by (auto simp add: solve_phase_def sc split: sum.splits if_splits prod.splits)
next
  case False
  have o: "filter (sent k) (trace (snd (ocr_captcha E img s))) = filter (sent k) (trace s)"
    by (simp add: ocr_captcha_others)
  have a: "filter (sent k) (trace (snd (ask E p (snd (ocr_captcha E img s))))) = filter (sent k) (trace s)" for p
    by (simp add: ask_others o)
  show ?thesis
    using assms(1) False o a[of "''Enter captcha (4 chars): ''"]
    by (auto simp add: solve_phase_def Let_def split: sum.splits if_splits prod.splits)
qed

lemma interpret_result_state:
  "snd (interpret_result C E resp s) = s
   \<or> (\<exists>rq. snd (interpret_result C E resp s) = snd (send E Redirect rq s))"
proof (cases "starts_with (lower (case content_type resp of None \<Rightarrow> [] | Some t \<Rightarrow> t)) ''application/json''")
  case False
  then show ?thesis by (simp add: interpret_result_def)
next
  case True
  let ?data = "case resp_json resp of None \<Rightarrow> JDict [] | Some d \<Rightarrow> d"
  show ?thesis
  proof (cases "py_get ?data ''data''")
    case (Inl e)
    with True show ?thesis by (simp add: interpret_result_def Let_def)
  next
    case (Inr d)
    let ?blk = "if is_dict d then d else JDict []"
    let ?status = "case py_get ?blk ''Status'' of Inr v \<Rightarrow> v | Inl _ \<Rightarrow> JNull"
    let ?url = "case py_get ?blk ''Url'' of Inr v \<Rightarrow> v | Inl _ \<Rightarrow> JNull"
    have unfold: "interpret_result C E resp s =
       (if truthy ?status \<and> truthy ?url
        then (case ?url of
                JStr u \<Rightarrow>
                  (case send E Redirect (session_get (urljoin E (LOGIN_PAGE_URL C) u) [] []) s of
                     (Inl e, s1) \<Rightarrow> (Inl e, s1)
                   | (Inr _, s1) \<Rightarrow> (Inr True, s1))
              | _ \<Rightarrow> (Inl (TypeError ''urljoin''), s))
        else if truthy ?status then (Inr True, s)
        else (Inr False, s))"
      unfolding interpret_result_def Let_def using True Inr by (simp only: if_True sum.case)
    show ?thesis
    proof (cases "truthy ?status \<and> truthy ?url")
      case False
      then show ?thesis unfolding unfold by (simp only: if_False) simp
    next
      case T2: True
      show ?thesis
      proof (cases ?url)
        case (JStr u)
        obtain r w where sd: "send E Redirect (session_get (urljoin E (LOGIN_PAGE_URL C) u) [] []) s
           = (r, w)" by force
        have "snd (interpret_result C E resp s) = w"
          unfolding unfold using T2 JStr sd by (simp only: if_True json.case) (simp split: sum.splits)
        then show ?thesis using sd by (metis snd_conv)
      qed (use T2 in \<open>simp_all only: unfold if_True json.case snd_conv simp_thms\<close>)
    qed
  qed
qed

lemma interpret_result_others:
  "k \<noteq> Redirect \<Longrightarrow>
     filter (sent k) (trace (snd (interpret_result C E resp s))) = filter (sent k) (trace s)"
  using interpret_result_state[of C E resp s] by (auto simp del: trace_send simp add: send_others)

lemma select_meter_no_state:
  "snd (select_meter_no C E m s)
     \<in> {s,
        snd (send E MeterList (meter_list_request C) s),
        snd (send E MeterSwitch (switch_post C m) (snd (send E MeterList (meter_list_request C) s))),
        snd (send E MeterSwitch (switch_get C m)
          (snd (send E MeterSwitch (switch_post C m) (snd (send E MeterList (meter_list_request C) s)))))}"
  by (simp add: select_meter_no_def then_do_def split: prod.splits sum.splits)

lemma select_meter_no_others:
  "k \<noteq> MeterList \<Longrightarrow> k \<noteq> MeterSwitch \<Longrightarrow>
     filter (sent k) (trace (snd (select_meter_no C E m s))) = filter (sent k) (trace s)"
  using select_meter_no_state[of C E m s] by auto

lemma select_phase_others:
  "k \<noteq> MeterList \<Longrightarrow> k \<noteq> MeterSwitch \<Longrightarrow>
     filter (sent k) (trace (snd (select_phase C E ok s))) = filter (sent k) (trace s)"
  using select_meter_no_others[of k C E "METER_NO C" s]
  by (auto simp add: select_phase_def split: prod.splits sum.splits)

lemma debug_gets_others:
  "k \<noteq> MeterDebug \<Longrightarrow>
     filter (sent k) (trace (snd (debug_gets E us s))) = filter (sent k) (trace s)"
proof (induction us arbitrary: s)
  case Nil
  show ?case by simp
next
  case (Cons u us)
  obtain r w where sd: "send E MeterDebug (session_get u [] []) s
      = (r, \<lparr>world = w, trace = trace s @ [Http MeterDebug (session_get u [] [])]\<rparr>)"
    by (rule send_cases)
  show ?case using Cons.prems by (simp add: sd Cons.IH split: sum.splits)
qed

lemma verify_dashboard_others:
  "k \<noteq> Dashboard \<Longrightarrow> k \<noteq> MeterDebug \<Longrightarrow>
     filter (sent k) (trace (snd (verify_dashboard C E s))) = filter (sent k) (trace s)"
  unfolding verify_dashboard_def dump_meter_debug_def
  by (auto intro!: then_do_others simp: debug_gets_others simp del: debug_gets.simps)

lemma then_do_rest:
  assumes "\<And>x s. filter P (trace (snd (f x s))) = filter P (trace s)"
  shows "filter P (trace (snd (then_do m f s))) = filter P (trace (snd (m s)))"
proof (cases "m s")
  case (Pair r s1)
  show ?thesis
  proof (cases r)
    case (Inl e)
    then show ?thesis by (simp add: then_do_def Pair)
  next
    case (Inr x)
    then show ?thesis using assms[of x s1] by (simp add: then_do_def Pair)
  qed
qed

lemma after_post_others:
  assumes "k \<noteq> Redirect" "k \<noteq> MeterList" "k \<noteq> MeterSwitch" "k \<noteq> Dashboard" "k \<noteq> MeterDebug"
  shows "filter (sent k) (trace (snd (then_do (interpret_result C E resp) (\<lambda>login_ok.
     then_do (select_phase C E login_ok) (\<lambda>sel.
       case sel of Continue \<Rightarrow> (\<lambda>s3. (Inr Continue, s3)) | Done _ \<Rightarrow> verify_dashboard C E)) s)))
     = filter (sent k) (trace s)"
  using assms
  by (auto intro!: then_do_others simp: interpret_result_others select_phase_others
      verify_dashboard_others split: step.splits)

lemma submit_phase_others:
  assumes "k \<noteq> Credentials" "k \<noteq> Redirect" "k \<noteq> MeterList" "k \<noteq> MeterSwitch"
    "k \<noteq> Dashboard" "k \<noteq> MeterDebug"
  shows "filter (sent k) (trace (snd (submit_phase C E au ff tok code s))) = filter (sent k) (trace s)"
  unfolding submit_phase_def
  using assms by (intro then_do_others after_post_others) simp_all

lemma submit_phase_credentials:
  "filter (sent Credentials) (trace (snd (submit_phase C E au ff tok code s)))
     = filter (sent Credentials) (trace s) @ [Http Credentials (credentials_request C au ff tok code)]"
proof -
  have "filter (sent Credentials) (trace (snd (submit_phase C E au ff tok code s)))
      = filter (sent Credentials)
          (trace (snd (send E Credentials (credentials_request C au ff tok code) s)))"
    unfolding submit_phase_def
    by (rule then_do_rest) (rule after_post_others, simp_all)
  then show ?thesis by simp
qed

lemma attempt_body_counts:
  assumes "attempt_body C E a s = Some (r, s')"
  shows "length (filter (sent Credentials) (trace s'))
           \<le> length (filter (sent Credentials) (trace s)) + 1
       \<and> length (filter (sent LoginPage) (trace s'))
           \<le> length (filter (sent LoginPage) (trace s)) + 2"
proof -
  obtain r1 s1 where g: "get_login_page C E s = (r1, s1)" by force
  have c1: "filter (sent Credentials) (trace s1) = filter (sent Credentials) (trace s)"
    using get_login_page_others[of Credentials C E s] by (simp add: g)
  have l1: "length (filter (sent LoginPage) (trace s1)) \<le> length (filter (sent LoginPage) (trace s)) + 2"
    using get_login_page_count[of C E s] by (simp add: g)
  show ?thesis
  proof (cases r1)
    case (Inl e)
    with assms g c1 l1 show ?thesis by (auto simp: attempt_body_def)
  next
    case html: (Inr html)
    show ?thesis
    proof (cases "parse_login_form C E html")
      case (Inl e)
      with assms g html c1 l1 show ?thesis by (auto simp: attempt_body_def)
    next
      case (Inr triple)
      obtain au ff cu where tr: "triple = (au, ff, cu)" by (cases triple) auto
      show ?thesis
      proof (cases "extract_token E html")
        case (Inl e)
        with assms g html Inr tr c1 l1 show ?thesis by (auto simp: attempt_body_def)
      next
        case tok: (Inr tok)
        obtain r2 s2 where f: "fetch_captcha C E cu s1 = (r2, s2)" by force
        have c2: "filter (sent Credentials) (trace s2) = filter (sent Credentials) (trace s1)"
          using fetch_captcha_others[of Credentials C E cu s1] by (simp add: f)
        have l2: "filter (sent LoginPage) (trace s2) = filter (sent LoginPage) (trace s1)"
          using fetch_captcha_others[of LoginPage C E cu s1] by (simp add: f)
        show ?thesis
        proof (cases r2)
          case (Inl e)
          with assms g html Inr tr tok f c1 l1 c2 l2 show ?thesis by (auto simp: attempt_body_def)
        next
          case img: (Inr img)
          from assms g html Inr tr tok f img obtain r3 s3 where
            sp: "solve_phase C E img s2 = Some (r3, s3)"
            by (cases "solve_phase C E img s2") (auto simp: attempt_body_def)
          have c3: "filter (sent Credentials) (trace s3) = filter (sent Credentials) (trace s2)"
            using solve_phase_others[OF sp, of Credentials] by simp
          have l3: "filter (sent LoginPage) (trace s3) = filter (sent LoginPage) (trace s2)"
            using solve_phase_others[OF sp, of LoginPage] by simp
          show ?thesis
          proof (cases r3)
            case (Inl e)
            with assms g html Inr tr tok f img sp c1 l1 c2 l2 c3 l3 show ?thesis
              by (auto simp: attempt_body_def)
          next
            case st: (Inr st)
            show ?thesis
            proof (cases st)
              case Continue
              with assms g html Inr tr tok f img sp st c1 l1 c2 l2 c3 l3 show ?thesis
                by (auto simp: attempt_body_def)
            next
              case (Done code)
              have eq: "(r, s') = submit_phase C E au ff tok code s3"
                using assms g html Inr tr tok f img sp st Done by (simp add: attempt_body_def)
              then have s': "s' = snd (submit_phase C E au ff tok code s3)" by (metis snd_conv)
              have c4: "filter (sent Credentials) (trace s')
                 = filter (sent Credentials) (trace s3) @ [Http Credentials (credentials_request C au ff tok code)]"
                unfolding s' by (rule submit_phase_credentials)
              have l4: "filter (sent LoginPage) (trace s') = filter (sent LoginPage) (trace s3)"
                unfolding s' by (rule submit_phase_others) simp_all
              show ?thesis using c1 l1 c2 l2 c3 l3 c4 l4 by simp
            qed
          qed
        qed
      qed
    qed
  qed
qed

lemma attempts_loop_counts:
  "attempts_loop C E as s = Some (r, s') \<Longrightarrow>
     length (filter (sent Credentials) (trace s'))
       \<le> length (filter (sent Credentials) (trace s)) + length as
     \<and> length (filter (sent LoginPage) (trace s'))
       \<le> length (filter (sent LoginPage) (trace s)) + 2 * length as"
proof (induction as arbitrary: s)
  case Nil
  then show ?case by simp
next
  case (Cons a as)
  from Cons.prems obtain r1 s1 where b: "attempt_body C E a s = Some (r1, s1)"
    by (cases "attempt_body C E a s") auto
  note cnt = attempt_body_counts[OF b]
  show ?case
  proof (cases r1)
    case (Inl e)
    with Cons.prems b cnt show ?thesis by auto
  next
    case (Inr st)
    show ?thesis
    proof (cases st)
      case (Done h)
      with Cons.prems b Inr cnt show ?thesis by auto
    next
      case Continue
      with Cons.prems b Inr have "attempts_loop C E as s1 = Some (r, s')" by simp
      from Cons.IH[OF this] cnt show ?thesis by simp
    qed
  qed
qed

lemma stub_page_ok:
  "\<forall>w. \<exists>resp w'. http (stub_env ocr) w (session_get (LOGIN_PAGE_URL stub_config) [] [])
            = (Inr resp, w') \<and> valid_login_page stub_config (stub_env ocr) resp"
  by (simp add: stub_env_def stub_config_def stub_http_def session_get_def valid_login_page_def
      raise_for_status_def starts_with_def parse_login_form_def extract_token_def stub_soup_def
      strip_def is_space_def attr_get_def Let_def)

lemma stub_captcha_ok:
  "\<forall>w u. \<exists>resp w'. http (stub_env ocr) w (session_get u [] [(''Referer'', LOGIN_PAGE_URL stub_config)])
            = (Inr resp, w') \<and> valid_captcha (stub_env ocr) resp"
  by (simp add: stub_env_def stub_http_def valid_captcha_def raise_for_status_def)

lemma stub_engine_ok: "\<forall>w v c. \<exists>w'. image_to_string (stub_env (\<lambda>n. t)) w v c = (Inr t, w')"
  by (simp add: stub_env_def)

subsection \<open>Unsolved codes in the remote configuration\<close>

lemmas stub_defs =
  stub_env_def stub_config_def stub_http_def stub_json_def stub_soup_def stub_pil_def start_def

lemmas step_defs =
  send_def pause_def session_get_def session_post_def raise_for_status_def then_do_def
  starts_with_def strip_def is_space_def attr_get_def lower_def lower_char_def
  py_get_def py_get_or_def is_dict_def Let_def

lemma remote_solver_run:
  "solve_captcha_2captcha remote_config (stub_env (\<lambda>n. [])) 7 120 \<lparr>world = 2, trace = tr\<rparr>
     = Some (Inr [], \<lparr>world = 9,
         trace = tr @ [Http CaptchaUpload (upload_request remote_config (stub_env (\<lambda>n. [])) 7),
                       Sleep 5,
                       Http CaptchaPoll (poll_request remote_config (JStr ''job-1''))]\<rparr>)"
  by (simp add: solve_captcha_2captcha_def remote_config_def stub_defs step_defs
      upload_request_def upload_reply_def poll_loop.simps poll_request_def poll_reply_def
      in_class_def)

lemma remote_run:
  "login_and_get_dashboard remote_config (stub_env (\<lambda>n. [])) start
     = Some (Inr ''<div id=card_1>'',
         \<lparr>world = 11,
          trace =
            [Http LoginPage (session_get ''https://portal/login'' [] []),
             Http CaptchaImage (session_get ''https://portal/login/captcha'' []
                                  [(''Referer'', ''https://portal/login'')]),
             Http CaptchaUpload (upload_request remote_config (stub_env (\<lambda>n. [])) 7),
             Sleep 5,
             Http CaptchaPoll (poll_request remote_config (JStr ''job-1'')),
             Http Credentials
               (credentials_request remote_config ''https://portal/login/submit''
                  [(''__RequestVerificationToken'', ''tok''), (''Captcha'', [])] ''tok'' []),
             Http Dashboard (session_get ''https://portal/dashboard'' [] [])]\<rparr>)"
proof -
  have page: "get_login_page remote_config (stub_env (\<lambda>n. [])) start
     = (Inr ''<form id=loginForm><input name=__RequestVerificationToken>'',
        \<lparr>world = 1, trace = [Http LoginPage (session_get ''https://portal/login'' [] [])]\<rparr>)"
    by (simp add: get_login_page_def remote_config_def stub_defs step_defs)
  have form: "parse_login_form remote_config (stub_env (\<lambda>n. [])) h
     = Inr (''https://portal/login/submit'',
            [(''__RequestVerificationToken'', ''tok''), (''Captcha'', [])],
            ''https://portal/login/captcha'')" for h
    by (simp add: parse_login_form_def add_field_def remote_config_def stub_defs step_defs)
  have tok: "extract_token (stub_env (\<lambda>n. [])) h = Inr ''tok''" for h
    by (simp add: extract_token_def stub_defs)
  have cap: "fetch_captcha remote_config (stub_env (\<lambda>n. [])) ''https://portal/login/captcha''
       \<lparr>world = Suc 0, trace = tr\<rparr>
     = (Inr 7, \<lparr>world = 2, trace = tr @ [Http CaptchaImage (session_get ''https://portal/login/captcha'' []
                                  [(''Referer'', ''https://portal/login'')])]\<rparr>)" for tr
    by (simp add: fetch_captcha_def remote_config_def stub_defs step_defs)
  have sub: "submit_phase remote_config (stub_env (\<lambda>n. [])) ''https://portal/login/submit''
       [(''__RequestVerificationToken'', ''tok''), (''Captcha'', [])] ''tok'' []
       \<lparr>world = 9, trace = tr\<rparr>
     = (Inr (Done ''<div id=card_1>''),
        \<lparr>world = 11, trace = tr @ [Http Credentials
               (credentials_request remote_config ''https://portal/login/submit''
                  [(''__RequestVerificationToken'', ''tok''), (''Captcha'', [])] ''tok'' []),
             Http Dashboard (session_get ''https://portal/dashboard'' [] [])]\<rparr>)" for tr
    by (simp add: submit_phase_def interpret_result_def select_phase_def verify_dashboard_def
        credentials_request_def remote_config_def stub_defs step_defs)
  have use: "USE_2CAPTCHA remote_config" "USERNAME remote_config \<noteq> []"
    "PASSWORD remote_config \<noteq> []" "MAX_LOGIN_ATTEMPTS remote_config = 3"
    by (simp_all add: remote_config_def stub_config_def)
  have up: "[1..3] = 1 # [2..(3::int)]" by (simp add: upto_rec1)
  show ?thesis
    by (simp add: login_and_get_dashboard_def use up attempt_body_def page form tok cap
        solve_phase_def remote_solver_run sub)
qed

lemma remote_never_skips:
  "USE_2CAPTCHA C \<Longrightarrow> solve_phase C E img s \<noteq> Some (Inr Continue, s')"
  by (auto simp add: solve_phase_def split: option.splits prod.splits sum.splits)

text \<open>
  Claim C2 says that with manual entry off, an attempt whose solver result is not exactly
  four characters sends no credential POST, in the local-only and in the remote
  configuration alike. The remote branch of lines 272 to 277 has no length test: on the
  run below the remote service answers a text that cleans to three characters, the
  adapter returns the empty string, and the attempt goes on to POST the credentials with
  an empty \<^verbatim>\<open>Captcha\<close> field.
\<close>

theorem remote_branch_submits_unsolved_code:
  "USE_2CAPTCHA remote_config \<and> \<not> CAPTCHA_MANUAL remote_config
   \<and> (\<exists>s1. solve_phase remote_config (stub_env (\<lambda>n. [])) 7 \<lparr>world = 2, trace = []\<rparr>
               = Some (Inr (Done []), s1))
   \<and> (\<exists>s'. login_and_get_dashboard remote_config (stub_env (\<lambda>n. [])) start
               = Some (Inr ''<div id=card_1>'', s')
         \<and> filter is_credential_post (trace s')
             = [Http Credentials
                  (credentials_request remote_config ''https://portal/login/submit''
                     [(''__RequestVerificationToken'', ''tok''), (''Captcha'', [])] ''tok'' [])])
   \<and> map_of (req_data (credentials_request remote_config ''https://portal/login/submit''
                 [(''__RequestVerificationToken'', ''tok''), (''Captcha'', [])] ''tok'' []))
         ''Captcha'' = Some (JStr [])"
proof -
  have cfg: "USE_2CAPTCHA remote_config" "\<not> CAPTCHA_MANUAL remote_config"
    by (simp_all add: remote_config_def stub_config_def)
  have solved: "\<exists>s1. solve_phase remote_config (stub_env (\<lambda>n. [])) 7 \<lparr>world = 2, trace = []\<rparr>
               = Some (Inr (Done []), s1)"
    by (simp add: solve_phase_def cfg remote_solver_run)
  have sentc: "map_of (req_data (credentials_request remote_config ''https://portal/login/submit''
                 [(''__RequestVerificationToken'', ''tok''), (''Captcha'', [])] ''tok'' []))
         ''Captcha'' = Some (JStr [])"
    by (simp add: credentials_request_def session_post_def)
  show ?thesis
    using cfg solved sentc
    by (simp add: remote_run is_credential_post_def)
qed

subsection \<open>The attempt budget when the recognition engine reads nothing\<close>

lemma fallback_run:
  "\<exists>s'. login_and_get_dashboard fallback_config (stub_env (\<lambda>n. [])) start
          = Some (Inr ''<div id=card_1>'', s')
      \<and> filter (sent LoginPage) (trace s')
          = [Http LoginPage (session_get ''https://portal/login'' [] [])]
      \<and> filter (sent Credentials) (trace s')
          = [Http Credentials
               (credentials_request fallback_config ''https://portal/login/submit''
                  [(''__RequestVerificationToken'', ''tok''), (''Captcha'', [])] ''tok'' [])]"
proof -
  let ?C = fallback_config
  let ?E = "stub_env (\<lambda>n. []) :: (nat, nat) env"
  let ?s2 = "\<lparr>world = 2, trace = [Http LoginPage (session_get ''https://portal/login'' [] []),
       Http CaptchaImage (session_get ''https://portal/login/captcha'' []
                                  [(''Referer'', ''https://portal/login'')])]\<rparr> :: (nat, nat) state"
  let ?rq = "credentials_request ?C ''https://portal/login/submit''
                  [(''__RequestVerificationToken'', ''tok''), (''Captcha'', [])] ''tok'' []"
  have page: "get_login_page ?C ?E start
     = (Inr ''<form id=loginForm><input name=__RequestVerificationToken>'',
        \<lparr>world = 1, trace = [Http LoginPage (session_get ''https://portal/login'' [] [])]\<rparr>)"
    by (simp add: get_login_page_def fallback_config_def stub_defs step_defs)
  have form: "parse_login_form ?C ?E h
     = Inr (''https://portal/login/submit'',
            [(''__RequestVerificationToken'', ''tok''), (''Captcha'', [])],
            ''https://portal/login/captcha'')" for h
    by (simp add: parse_login_form_def add_field_def fallback_config_def stub_defs step_defs)
  have tok: "extract_token ?E h = Inr ''tok''" for h
    by (simp add: extract_token_def stub_defs)
  have cap: "fetch_captcha ?C ?E ''https://portal/login/captcha''
       \<lparr>world = Suc 0, trace = [Http LoginPage (session_get ''https://portal/login'' [] [])]\<rparr>
     = (Inr 7, ?s2)"
    by (simp add: fetch_captcha_def fallback_config_def stub_defs step_defs)
  have "\<forall>w v c. \<exists>t w'. image_to_string ?E w v c = (Inr t, w') \<and> accept_text t = None"
    by (simp add: stub_env_def accept_text_def)
  then have "fst (ocr_captcha ?E 7 ?s2) = Inr []" by (rule ocr_captcha_all_fail)
  then obtain s3 where ocr: "ocr_captcha ?E 7 ?s2 = (Inr [], s3)"
    by (cases "ocr_captcha ?E 7 ?s2") simp
  have solve: "solve_phase ?C ?E 7 ?s2 = Some (Inr (Done []), s3)"
    by (simp add: solve_phase_def solve_captcha_2captcha_def is_Exception_def ocr
        fallback_config_def stub_config_def)
  have sub: "submit_phase ?C ?E ''https://portal/login/submit''
       [(''__RequestVerificationToken'', ''tok''), (''Captcha'', [])] ''tok'' [] s
     = (Inr (Done ''<div id=card_1>''),
        \<lparr>world = world s + 2, trace = trace s @ [Http Credentials ?rq,
             Http Dashboard (session_get ''https://portal/dashboard'' [] [])]\<rparr>)" for s :: "(nat, nat) state"
    by (simp add: submit_phase_def interpret_result_def select_phase_def verify_dashboard_def
        credentials_request_def fallback_config_def stub_defs step_defs)
  have use: "USERNAME ?C \<noteq> []" "PASSWORD ?C \<noteq> []" "MAX_LOGIN_ATTEMPTS ?C = 3"
    by (simp_all add: fallback_config_def stub_config_def)
  have up: "[1..3] = 1 # [2..(3::int)]" by (simp add: upto_rec1)
  have run: "login_and_get_dashboard ?C ?E start
     = Some (Inr ''<div id=card_1>'',
        \<lparr>world = world s3 + 2, trace = trace s3 @ [Http Credentials ?rq,
             Http Dashboard (session_get ''https://portal/dashboard'' [] [])]\<rparr>)"
    by (simp add: login_and_get_dashboard_def use up attempt_body_def page form tok cap solve sub)
  have keep: "filter (sent k) (trace s3) = filter (sent k) (trace ?s2)" for k
    using ocr_captcha_others[of k ?E 7 ?s2] by (simp add: ocr)
  show ?thesis
    by (intro exI conjI, rule run) (simp_all add: keep)
qed

text \<open>
  Claim C10 says that the attempt loop is bounded by the configured maximum, that
  exhausting it raises the exhausted-attempts error, and in particular that with a
  recognition engine that always returns the empty text, manual entry off and a maximum
  of 3, the run fetches the login page exactly three times, sends no credential POST and
  fails with that error. The bound holds (\<open>attempts_loop_counts\<close>), and in the local-only
  configuration so does the scenario (\<open>attempts_loop_local_exhausted\<close>). With remote
  solving switched on the scenario fails: on the two runs below the engine answers the
  empty text to every call, manual entry is off and the maximum is 3. In the first the
  adapter raises for want of a key and the local solver, after all its calls, returns the
  empty string; in the second the adapter itself returns the empty string. In both the
  first attempt goes on to POST the credentials with an empty \<^verbatim>\<open>Captcha\<close> field and,
  the server accepting it, the run returns the dashboard after a single fetch of the
  login page. Lines 272 to 277 have no length test; it is the defect of claim C2.
\<close>

theorem empty_code_is_submitted:
  "\<not> CAPTCHA_MANUAL fallback_config \<and> MAX_LOGIN_ATTEMPTS fallback_config = 3
   \<and> (\<forall>w v c. image_to_string (stub_env (\<lambda>n. [])) w v c = (Inr [], w + 1))
   \<and> (\<exists>s'. login_and_get_dashboard fallback_config (stub_env (\<lambda>n. [])) start
               = Some (Inr ''<div id=card_1>'', s')
         \<and> length (filter is_login_fetch (trace s')) = 1
         \<and> filter is_credential_post (trace s')
             = [Http Credentials
                  (credentials_request fallback_config ''https://portal/login/submit''
                     [(''__RequestVerificationToken'', ''tok''), (''Captcha'', [])] ''tok'' [])])
   \<and> \<not> CAPTCHA_MANUAL remote_config \<and> MAX_LOGIN_ATTEMPTS remote_config = 3
   \<and> (\<exists>s'. login_and_get_dashboard remote_config (stub_env (\<lambda>n. [])) start
               = Some (Inr ''<div id=card_1>'', s')
         \<and> length (filter is_login_fetch (trace s')) = 1
         \<and> length (filter is_credential_post (trace s')) = 1)"
proof -
  have cfg: "\<not> CAPTCHA_MANUAL fallback_config" "MAX_LOGIN_ATTEMPTS fallback_config = 3"
    "\<not> CAPTCHA_MANUAL remote_config" "MAX_LOGIN_ATTEMPTS remote_config = 3"
    by (simp_all add: fallback_config_def remote_config_def stub_config_def)
  have eng: "\<forall>w v c. image_to_string (stub_env (\<lambda>n. [])) w v c = (Inr [], w + 1)"
    by (simp add: stub_env_def)
  from fallback_run obtain s' where
    "login_and_get_dashboard fallback_config (stub_env (\<lambda>n. [])) start
          = Some (Inr ''<div id=card_1>'', s')"
    "filter (sent LoginPage) (trace s')
          = [Http LoginPage (session_get ''https://portal/login'' [] [])]"
    "filter (sent Credentials) (trace s')
          = [Http Credentials
               (credentials_request fallback_config ''https://portal/login/submit''
                  [(''__RequestVerificationToken'', ''tok''), (''Captcha'', [])] ''tok'' [])]"
    by blast
  then have fb: "\<exists>s'. login_and_get_dashboard fallback_config (stub_env (\<lambda>n. [])) start
               = Some (Inr ''<div id=card_1>'', s')
         \<and> length (filter is_login_fetch (trace s')) = 1
         \<and> filter is_credential_post (trace s')
             = [Http Credentials
                  (credentials_request fallback_config ''https://portal/login/submit''
                     [(''__RequestVerificationToken'', ''tok''), (''Captcha'', [])] ''tok'' [])]"
    by (auto simp: is_login_fetch_eq is_credential_post_eq)
  have rm: "\<exists>s'. login_and_get_dashboard remote_config (stub_env (\<lambda>n. [])) start
               = Some (Inr ''<div id=card_1>'', s')
         \<and> length (filter is_login_fetch (trace s')) = 1
         \<and> length (filter is_credential_post (trace s')) = 1"
    by (simp add: remote_run is_login_fetch_def is_credential_post_def)
  show ?thesis using cfg eng fb rm by blast
qed

subsection \<open>A solved captcha in the local-only configuration\<close>

text \<open>
  Claim C1 says that when the login page is well-formed, the solver resolves the captcha
  to a four-character code, the server answers the credential POST with status true and
  no redirect, and the dashboard carries the marker, the run returns the dashboard on the
  first attempt. On the run below all of this holds (the engine reads \<^verbatim>\<open>Ab12\<close>, and
  the server would answer the submission with the dashboard), yet in the default
  configuration, local-only without manual entry, the code is never submitted: three
  login pages are fetched, no credential POST is sent, and the run raises.
\<close>

theorem solved_code_is_never_submitted:
  "\<not> USE_2CAPTCHA stub_config \<and> \<not> CAPTCHA_MANUAL stub_config
   \<and> (\<forall>w. \<exists>resp w'. http (stub_env (\<lambda>n. ''Ab12'')) w (session_get (LOGIN_PAGE_URL stub_config) [] [])
            = (Inr resp, w') \<and> valid_login_page stub_config (stub_env (\<lambda>n. ''Ab12'')) resp)
   \<and> fst (ocr_captcha (stub_env (\<lambda>n. ''Ab12'')) 7 \<lparr>world = 2, trace = []\<rparr>) = Inr ''Ab12''
   \<and> fst (submit_phase stub_config (stub_env (\<lambda>n. ''Ab12'')) ''https://portal/login/submit''
            [(''__RequestVerificationToken'', ''tok''), (''Captcha'', [])] ''tok'' ''Ab12''
            \<lparr>world = 3, trace = []\<rparr>)
       = Inr (Done ''<div id=card_1>'')
   \<and> (\<exists>s'. login_and_get_dashboard stub_config (stub_env (\<lambda>n. ''Ab12'')) start
               = Some (Inl (LoginError ''Login failed after multiple attempts''), s')
         \<and> length (filter is_login_fetch (trace s')) = 3
         \<and> filter is_credential_post (trace s') = [])"
proof -
  have cfg: "\<not> USE_2CAPTCHA stub_config" "\<not> CAPTCHA_MANUAL stub_config"
    "MAX_LOGIN_ATTEMPTS stub_config = 3" "USERNAME stub_config \<noteq> []" "PASSWORD stub_config \<noteq> []"
    by (simp_all add: stub_config_def)
  have ocr: "fst (ocr_captcha (stub_env (\<lambda>n. ''Ab12'')) 7 \<lparr>world = 2, trace = []\<rparr>) = Inr ''Ab12''"
    by (simp add: ocr_captcha_def variants_spec spec_variants_def spec_scale_block_def
        stub_pil_def stub_env_def configs_def recognise_def accept_text_def in_class_def)
  have sub: "fst (submit_phase stub_config (stub_env (\<lambda>n. ''Ab12'')) ''https://portal/login/submit''
            [(''__RequestVerificationToken'', ''tok''), (''Captcha'', [])] ''tok'' ''Ab12''
            \<lparr>world = 3, trace = []\<rparr>)
       = Inr (Done ''<div id=card_1>'')"
    by (simp add: submit_phase_def interpret_result_def select_phase_def verify_dashboard_def
        credentials_request_def stub_defs step_defs)
  have eng: "\<forall>w v c. \<exists>t w'. image_to_string (stub_env (\<lambda>n. ''Ab12'')) w v c = (Inr t, w')"
    by (simp add: stub_env_def)
  have run: "\<exists>s'. login_and_get_dashboard stub_config (stub_env (\<lambda>n. ''Ab12'')) start
               = Some (Inl (LoginError ''Login failed after multiple attempts''), s')
         \<and> length (filter is_login_fetch (trace s')) = 3
         \<and> filter is_credential_post (trace s') = []"
    using attempts_loop_local_exhausted[OF cfg(1,2) stub_page_ok stub_captcha_ok eng, of "[1..3]" start]
    by (simp add: login_and_get_dashboard_def cfg is_login_fetch_eq is_credential_post_eq start_def)
  show ?thesis
    using cfg(1,2) stub_page_ok[of "\<lambda>n. ''Ab12''"] ocr sub run by blast
qed

subsection \<open>The remote solving adapter\<close>

lemma poll_loop_timeout:
  "\<not> now E (world s) - st < real_of_int tmo \<Longrightarrow>
     poll_loop C E cid st tmo s = Some (Inl (LoginError ''2Captcha timeout''), s)"
  by (subst poll_loop.simps) simp

lemma poll_loop_step:
  assumes "now E (world s) - st < real_of_int tmo"
    and "send E CaptchaPoll (poll_request C cid) (pause E 5 s) = (Inr poll, s2)"
  shows "poll_loop C E cid st tmo s =
           (case poll_reply E poll of
              Inl e \<Rightarrow> Some (Inl e, s2)
            | Inr (Some code) \<Rightarrow> Some (Inr code, s2)
            | Inr None \<Rightarrow> poll_loop C E cid st tmo s2)"
  by (subst poll_loop.simps) (simp add: assms)

lemma poll_reply_cases:
  assumes "raise_for_status poll = Inr ()" and "resp_json poll = Some (JDict kvs)"
  shows "poll_reply E poll =
     (if eq_one (case map_of kvs ''status'' of None \<Rightarrow> JNull | Some v \<Rightarrow> v)
      then (case map_of kvs ''request'' of
              None \<Rightarrow> Inr (Some [])
            | Some (JStr t) \<Rightarrow> Inr (Some (if length (clean_text t) = 4 then clean_text t else []))
            | Some _ \<Rightarrow> Inl (TypeError ''expected string''))
      else if map_of kvs ''request'' = Some (JStr ''CAPCHA_NOT_READY'') then Inr None
      else Inl (LoginError (''2Captcha error: '' @ py_str E (JDict kvs))))"
  by (auto simp add: poll_reply_def assms py_get_def py_get_or_def Let_def
      split: option.splits json.splits)

lemma poll_loop_trace_aux:
  assumes run: "poll_loop C E cid st tmo s = Some y"
  shows "\<exists>n. trace (snd y) = trace s @ polls C cid n"
proof (rule poll_loop.raw_induct[where P="\<lambda>C E cid st tmo s y.
          \<exists>n. trace (snd y) = trace s @ polls C cid n", OF _ run])
  fix pl :: "config \<Rightarrow> ('a, 'b) env \<Rightarrow> json \<Rightarrow> real \<Rightarrow> int \<Rightarrow> ('a, 'b) state
               \<Rightarrow> ((error + string) \<times> ('a, 'b) state) option"
    and C E cid st tmo s y
  assume IH: "\<And>C E cid st tmo s y. pl C E cid st tmo s = Some y \<Longrightarrow>
                \<exists>n. trace (snd y) = trace s @ polls C cid n"
    and body: "(if now E (world s) - st < real_of_int tmo
      then case send E CaptchaPoll (poll_request C cid) (pause E 5 s) of
           (Inl e, s2) \<Rightarrow> Some (Inl e, s2)
           | (Inr poll, s2) \<Rightarrow>
               (case poll_reply E poll of Inl e \<Rightarrow> Some (Inl e, s2)
               | Inr None \<Rightarrow> pl C E cid st tmo s2
               | Inr (Some code) \<Rightarrow> Some (Inr code, s2))
      else Some (Inl (LoginError ''2Captcha timeout''), s)) = Some y"
  show "\<exists>n. trace (snd y) = trace s @ polls C cid n"
  proof (cases "now E (world s) - st < real_of_int tmo")
    case False
    with body have "trace (snd y) = trace s @ polls C cid 0" by (auto simp: polls_def)
    then show ?thesis ..
  next
    case True
    obtain rr w where sd: "send E CaptchaPoll (poll_request C cid) (pause E 5 s)
      = (rr, \<lparr>world = w, trace = trace (pause E 5 s) @ [Http CaptchaPoll (poll_request C cid)]\<rparr>)"
      by (rule send_cases)
    let ?s2 = "\<lparr>world = w, trace = trace (pause E 5 s) @ [Http CaptchaPoll (poll_request C cid)]\<rparr>"
    have one: "trace ?s2 = trace s @ polls C cid 1"
      by (simp add: polls_def)
    have more: "trace ?s2 @ polls C cid n = trace s @ polls C cid (Suc n)" for n
      by (simp add: polls_def)
    show ?thesis
    proof (cases rr)
      case (Inl e)
      with body True sd have "snd y = ?s2" by auto
      with one show ?thesis by metis
    next
      case (Inr poll)
      show ?thesis
      proof (cases "poll_reply E poll")
        case (Inl e)
        with body True sd Inr have "snd y = ?s2" by auto
        with one show ?thesis by metis
      next
        case rep: (Inr oc)
        show ?thesis
        proof (cases oc)
          case None
          with body True sd Inr rep have "pl C E cid st tmo ?s2 = Some y" by simp
          from IH[OF this] obtain n where "trace (snd y) = trace ?s2 @ polls C cid n" by blast
          with more[of n] show ?thesis by metis
        next
          case (Some code)
          with body True sd Inr rep have "snd y = ?s2" by auto
          with one show ?thesis by metis
        qed
      qed
    qed
  qed
qed

lemma poll_loop_returns:
  assumes sl: "\<forall>w n. now E w + real n \<le> now E (sleep E w n)"
    and ht: "\<forall>w rq. now E w \<le> now E (snd (http E w rq))"
  shows "real_of_int tmo - (now E (world s) - st) \<le> 5 * real m \<Longrightarrow>
           \<exists>r s' n. poll_loop C E cid st tmo s = Some (r, s') \<and> n \<le> m
              \<and> trace s' = trace s @ polls C cid n"
proof (induction m arbitrary: s)
  case 0
  then have "\<not> now E (world s) - st < real_of_int tmo" by simp
  from poll_loop_timeout[OF this, of C cid]
  have "poll_loop C E cid st tmo s = Some (Inl (LoginError ''2Captcha timeout''), s)
        \<and> (0::nat) \<le> 0 \<and> trace s = trace s @ polls C cid 0"
    by (simp add: polls_def)
  then show ?case by blast
next
  case (Suc m)
  show ?case
  proof (cases "now E (world s) - st < real_of_int tmo")
    case False
    from poll_loop_timeout[OF this, of C cid]
    have "poll_loop C E cid st tmo s = Some (Inl (LoginError ''2Captcha timeout''), s)
        \<and> (0::nat) \<le> Suc m \<and> trace s = trace s @ polls C cid 0"
      by (simp add: polls_def)
    then show ?thesis by blast
  next
    case True
    obtain rr w where hw: "http E (world (pause E 5 s)) (poll_request C cid) = (rr, w)" by force
    let ?s2 = "\<lparr>world = w, trace = trace (pause E 5 s) @ [Http CaptchaPoll (poll_request C cid)]\<rparr>"
    have sd: "send E CaptchaPoll (poll_request C cid) (pause E 5 s) = (rr, ?s2)"
      by (simp add: send_def hw)
    have t2: "trace ?s2 = trace s @ polls C cid 1" by (simp add: polls_def)
    have more: "trace ?s2 @ polls C cid n = trace s @ polls C cid (Suc n)" for n
      by (simp add: polls_def)
    have "now E (world s) + 5 \<le> now E (world (pause E 5 s))"
      using sl[rule_format, of "world s" 5] by (simp add: pause_def)
    moreover have "now E (world (pause E 5 s)) \<le> now E w"
      using ht[rule_format, of "world (pause E 5 s)" "poll_request C cid"] by (simp add: hw)
    ultimately have rem: "real_of_int tmo - (now E (world ?s2) - st) \<le> 5 * real m"
      using Suc.prems by simp
    have unf: "poll_loop C E cid st tmo s =
       (case rr of Inl e \<Rightarrow> Some (Inl e, ?s2)
        | Inr poll \<Rightarrow> (case poll_reply E poll of
              Inl e \<Rightarrow> Some (Inl e, ?s2)
            | Inr (Some code) \<Rightarrow> Some (Inr code, ?s2)
            | Inr None \<Rightarrow> poll_loop C E cid st tmo ?s2))"
      by (subst poll_loop.simps) (simp add: True sd split: sum.splits option.splits)
    have stop: "\<exists>r s' n. Some (x, ?s2) = Some (r, s') \<and> n \<le> Suc m
              \<and> trace s' = trace s @ polls C cid n" for x :: "error + string"
      using t2 by (intro exI[of _ x] exI[of _ ?s2] exI[of _ 1]) simp
    show ?thesis
    proof (cases rr)
      case (Inl e)
      then show ?thesis unfolding unf using stop by simp
    next
      case (Inr poll)
      show ?thesis
      proof (cases "poll_reply E poll")
        case (Inl e)
        with Inr show ?thesis unfolding unf using stop by simp
      next
        case rep: (Inr oc)
        show ?thesis
        proof (cases oc)
          case (Some code)
          with Inr rep show ?thesis unfolding unf using stop by simp
        next
          case None
          from Suc.IH[OF rem] obtain r s' n where
            "poll_loop C E cid st tmo ?s2 = Some (r, s')" "n \<le> m"
            "trace s' = trace ?s2 @ polls C cid n" by blast
          then have "poll_loop C E cid st tmo s = Some (r, s') \<and> Suc n \<le> Suc m
              \<and> trace s' = trace s @ polls C cid (Suc n)"
            unfolding unf using Inr rep None more[of n] by simp
          then show ?thesis by blast
        qed
      qed
    qed
  qed
qed

lemma solve_phase_remote_done:
  "USE_2CAPTCHA C \<Longrightarrow> solve_captcha_2captcha C E img 120 s = Some (Inr code, s3) \<Longrightarrow>
     solve_phase C E img s = Some (Inr (Done code), s3)"
  by (simp add: solve_phase_def)

lemma solve_captcha_2captcha_polls:
  "CAPTCHA_2CAPTCHA_API_KEY C \<noteq> [] \<Longrightarrow>
   send E CaptchaUpload (upload_request C E img) su = (Inr resp, s1) \<Longrightarrow>
   upload_reply E resp = Inr cid \<Longrightarrow>
     solve_captcha_2captcha C E img tmo su = poll_loop C E cid (now E (world s1)) tmo s1"
  by (simp add: solve_captcha_2captcha_def)

text \<open>
  Claim C7. The remote adapter uploads the base64 encoding of the PNG bytes of the
  challenge image as it was fetched, takes the job id from the answer and polls with it.
  Each round of the loop first tests the clock against the timeout, counted from the
  moment before the first round, then sleeps 5 and polls: once the timeout (120 at the
  call site) has elapsed, no further poll is sent and the timeout LoginError is raised.
  A poll whose status is not success and whose text is the not-ready marker sends the
  loop round again; any other non-success answer raises a LoginError; a success answer
  returns the cleaned text if it has exactly four characters and the empty string
  otherwise. The trace of a returning loop is a number of (sleep 5, poll) rounds, and
  with a clock that advances by at least the time slept and never runs backwards the loop
  returns after at most 24 rounds.
\<close>

theorem remote_adapter_protocol:
  "map_of (req_data (upload_request C E img)) ''body''
     = Some (JStr (b64encode E (save_png (imaging E) img)))
   \<and> map_of (req_data (upload_request C E img)) ''method'' = Some (JStr ''base64'')
   \<and> (CAPTCHA_2CAPTCHA_API_KEY C \<noteq> []
        \<and> send E CaptchaUpload (upload_request C E img) su = (Inr resp, s1)
        \<and> upload_reply E resp = Inr cid
      \<longrightarrow> solve_captcha_2captcha C E img tmo su
            = poll_loop C E cid (now E (world s1)) tmo s1)
   \<and> (\<not> now E (world sT) - st < real_of_int tmo
      \<longrightarrow> poll_loop C E cid st tmo sT = Some (Inl (LoginError ''2Captcha timeout''), sT))
   \<and> (now E (world sp) - st < real_of_int tmo
        \<and> send E CaptchaPoll (poll_request C cid) (pause E 5 sp) = (Inr poll, s2)
        \<and> raise_for_status poll = Inr () \<and> resp_json poll = Some (JDict kvs)
      \<longrightarrow> poll_loop C E cid st tmo sp =
            (if eq_one (case map_of kvs ''status'' of None \<Rightarrow> JNull | Some v \<Rightarrow> v)
             then (case map_of kvs ''request'' of
                     None \<Rightarrow> Some (Inr [], s2)
                   | Some (JStr t) \<Rightarrow>
                       Some (Inr (if length (clean_text t) = 4 then clean_text t else []), s2)
                   | Some _ \<Rightarrow> Some (Inl (TypeError ''expected string''), s2))
             else if map_of kvs ''request'' = Some (JStr ''CAPCHA_NOT_READY'')
               then poll_loop C E cid st tmo s2
             else Some (Inl (LoginError (''2Captcha error: '' @ py_str E (JDict kvs))), s2)))
   \<and> (\<forall>r s'. poll_loop C E cid st tmo sp = Some (r, s')
         \<longrightarrow> (\<exists>n. trace s' = trace sp @ polls C cid n))
   \<and> ((\<forall>w n. now E w + real n \<le> now E (sleep E w n))
        \<and> (\<forall>w rq. now E w \<le> now E (snd (http E w rq)))
        \<and> st \<le> now E (world sp)
      \<longrightarrow> (\<exists>r s' n. poll_loop C E cid st 120 sp = Some (r, s') \<and> n \<le> 24
               \<and> trace s' = trace sp @ polls C cid n))
   \<and> (USE_2CAPTCHA C \<and> solve_captcha_2captcha C E img 120 su = Some (Inr code, s3)
      \<longrightarrow> solve_phase C E img su = Some (Inr (Done code), s3))"
proof (intro conjI impI allI)
  show "map_of (req_data (upload_request C E img)) ''body''
     = Some (JStr (b64encode E (save_png (imaging E) img)))"
    and "map_of (req_data (upload_request C E img)) ''method'' = Some (JStr ''base64'')"
    by (simp_all add: upload_request_def)
next
  assume "CAPTCHA_2CAPTCHA_API_KEY C \<noteq> []
        \<and> send E CaptchaUpload (upload_request C E img) su = (Inr resp, s1)
        \<and> upload_reply E resp = Inr cid"
  then show "solve_captcha_2captcha C E img tmo su
            = poll_loop C E cid (now E (world s1)) tmo s1"
    by (auto simp: solve_captcha_2captcha_polls)
next
  assume "\<not> now E (world sT) - st < real_of_int tmo"
  then show "poll_loop C E cid st tmo sT = Some (Inl (LoginError ''2Captcha timeout''), sT)"
    by (rule poll_loop_timeout)
next
  assume h: "now E (world sp) - st < real_of_int tmo
        \<and> send E CaptchaPoll (poll_request C cid) (pause E 5 sp) = (Inr poll, s2)
        \<and> raise_for_status poll = Inr () \<and> resp_json poll = Some (JDict kvs)"
  then have step: "poll_loop C E cid st tmo sp =
           (case poll_reply E poll of
              Inl e \<Rightarrow> Some (Inl e, s2)
            | Inr (Some code) \<Rightarrow> Some (Inr code, s2)
            | Inr None \<Rightarrow> poll_loop C E cid st tmo s2)"
    by (auto simp: poll_loop_step)
  from h have rep: "poll_reply E poll =
     (if eq_one (case map_of kvs ''status'' of None \<Rightarrow> JNull | Some v \<Rightarrow> v)
      then (case map_of kvs ''request'' of
              None \<Rightarrow> Inr (Some [])
            | Some (JStr t) \<Rightarrow> Inr (Some (if length (clean_text t) = 4 then clean_text t else []))
            | Some _ \<Rightarrow> Inl (TypeError ''expected string''))
      else if map_of kvs ''request'' = Some (JStr ''CAPCHA_NOT_READY'') then Inr None
      else Inl (LoginError (''2Captcha error: '' @ py_str E (JDict kvs))))"
    by (auto simp: poll_reply_cases)
  show "poll_loop C E cid st tmo sp =
            (if eq_one (case map_of kvs ''status'' of None \<Rightarrow> JNull | Some v \<Rightarrow> v)
             then (case map_of kvs ''request'' of
                     None \<Rightarrow> Some (Inr [], s2)
                   | Some (JStr t) \<Rightarrow>
                       Some (Inr (if length (clean_text t) = 4 then clean_text t else []), s2)
                   | Some _ \<Rightarrow> Some (Inl (TypeError ''expected string''), s2))
             else if map_of kvs ''request'' = Some (JStr ''CAPCHA_NOT_READY'')
               then poll_loop C E cid st tmo s2
             else Some (Inl (LoginError (''2Captcha error: '' @ py_str E (JDict kvs))), s2))"
    unfolding step rep by (simp split: option.splits json.splits)
next
  fix r s'
  assume "poll_loop C E cid st tmo sp = Some (r, s')"
  from poll_loop_trace_aux[OF this] show "\<exists>n. trace s' = trace sp @ polls C cid n" by simp
next
  assume h: "(\<forall>w n. now E w + real n \<le> now E (sleep E w n))
        \<and> (\<forall>w rq. now E w \<le> now E (snd (http E w rq)))
        \<and> st \<le> now E (world sp)"
  then have "real_of_int 120 - (now E (world sp) - st) \<le> 5 * real 24" by simp
  from poll_loop_returns[OF h[THEN conjunct1] h[THEN conjunct2, THEN conjunct1] this, of C cid]
  show "\<exists>r s' n. poll_loop C E cid st 120 sp = Some (r, s') \<and> n \<le> 24
               \<and> trace s' = trace sp @ polls C cid n" by simp
next
  assume "USE_2CAPTCHA C \<and> solve_captcha_2captcha C E img 120 su = Some (Inr code, s3)"
  then show "solve_phase C E img su = Some (Inr (Done code), s3)"
    by (auto simp: solve_phase_remote_done)
qed

theorem remote_adapter_protocol_witness:
  "(CAPTCHA_2CAPTCHA_API_KEY remote_config \<noteq> []
      \<and> send (stub_env (\<lambda>n. [])) CaptchaUpload (upload_request remote_config (stub_env (\<lambda>n. [])) 7)
            before_upload = (Inr upload_answer, after_upload)
      \<and> upload_reply (stub_env (\<lambda>n. [])) upload_answer = Inr (JStr ''job-1''))
   \<and> solve_captcha_2captcha remote_config (stub_env (\<lambda>n. [])) 7 120 before_upload
       = poll_loop remote_config (stub_env (\<lambda>n. [])) (JStr ''job-1'')
           (now (stub_env (\<lambda>n. [])) (world after_upload)) 120 after_upload
   \<and> \<not> now (stub_env (\<lambda>n. [])) (world timed_out) - 3 < real_of_int 120
   \<and> poll_loop remote_config (stub_env (\<lambda>n. [])) (JStr ''job-1'') 3 120 timed_out
       = Some (Inl (LoginError ''2Captcha timeout''), timed_out)
   \<and> (now (stub_env (\<lambda>n. [])) (world after_upload) - 3 < real_of_int 120
      \<and> send (stub_env (\<lambda>n. [])) CaptchaPoll (poll_request remote_config (JStr ''job-1''))
            (pause (stub_env (\<lambda>n. [])) 5 after_upload) = (Inr poll_answer, after_poll)
      \<and> raise_for_status poll_answer = Inr ()
      \<and> resp_json poll_answer = Some (JDict [(''status'', JInt 1), (''request'', JStr ''a-b-c'')]))
   \<and> poll_loop remote_config (stub_env (\<lambda>n. [])) (JStr ''job-1'') 3 120 after_upload
       = Some (Inr [], after_poll)
   \<and> (\<exists>n. trace after_poll = trace after_upload @ polls remote_config (JStr ''job-1'') n)
   \<and> ((\<forall>w n. now (stub_env (\<lambda>n. [])) w + real n \<le> now (stub_env (\<lambda>n. [])) (sleep (stub_env (\<lambda>n. [])) w n))
      \<and> (\<forall>w rq. now (stub_env (\<lambda>n. [])) w \<le> now (stub_env (\<lambda>n. [])) (snd (http (stub_env (\<lambda>n. [])) w rq)))
      \<and> 3 \<le> now (stub_env (\<lambda>n. [])) (world after_upload))
   \<and> (\<exists>r s' n. poll_loop remote_config (stub_env (\<lambda>n. [])) (JStr ''job-1'') 3 120 after_upload
                   = Some (r, s') \<and> n \<le> 24
          \<and> trace s' = trace after_upload @ polls remote_config (JStr ''job-1'') n)
   \<and> (USE_2CAPTCHA remote_config
      \<and> solve_captcha_2captcha remote_config (stub_env (\<lambda>n. [])) 7 120 before_upload
          = Some (Inr [], after_poll))
   \<and> solve_phase remote_config (stub_env (\<lambda>n. [])) 7 before_upload
       = Some (Inr (Done []), after_poll)"
proof -
  let ?E = "stub_env (\<lambda>n. []) :: (nat, nat) env"
  let ?kvs = "[(''status'', JInt 1), (''request'', JStr ''a-b-c'')]"
  note T = remote_adapter_protocol[where C = remote_config and E = ?E and img = 7
      and su = before_upload and resp = upload_answer and ?s1.0 = after_upload
      and cid = "JStr ''job-1''" and tmo = 120 and sT = timed_out and st = 3
      and sp = after_upload and poll = poll_answer and ?s2.0 = after_poll and kvs = ?kvs
      and code = "[]" and ?s3.0 = after_poll]
  have h1: "CAPTCHA_2CAPTCHA_API_KEY remote_config \<noteq> []
      \<and> send ?E CaptchaUpload (upload_request remote_config ?E 7) before_upload
          = (Inr upload_answer, after_upload)
      \<and> upload_reply ?E upload_answer = Inr (JStr ''job-1'')"
    by (simp add: remote_config_def stub_defs step_defs upload_request_def upload_reply_def
        upload_answer_def before_upload_def after_upload_def)
  have h2: "\<not> now ?E (world timed_out) - 3 < real_of_int 120"
    by (simp add: stub_env_def timed_out_def)
  have h3: "now ?E (world after_upload) - 3 < real_of_int 120
      \<and> send ?E CaptchaPoll (poll_request remote_config (JStr ''job-1''))
            (pause ?E 5 after_upload) = (Inr poll_answer, after_poll)
      \<and> raise_for_status poll_answer = Inr ()
      \<and> resp_json poll_answer = Some (JDict ?kvs)"
    by (simp add: remote_config_def stub_defs step_defs poll_request_def
        poll_answer_def after_poll_def after_upload_def upload_request_def)
  have h5: "(\<forall>w n. now ?E w + real n \<le> now ?E (sleep ?E w n))
      \<and> (\<forall>w rq. now ?E w \<le> now ?E (snd (http ?E w rq)))
      \<and> 3 \<le> now ?E (world after_upload)"
    by (simp add: stub_env_def after_upload_def)
  have h6: "USE_2CAPTCHA remote_config
      \<and> solve_captcha_2captcha remote_config ?E 7 120 before_upload = Some (Inr [], after_poll)"
    using remote_solver_run[of "[]"]
    by (simp add: before_upload_def after_poll_def remote_config_def stub_config_def)
  from T h1 have c1: "solve_captcha_2captcha remote_config ?E 7 120 before_upload
       = poll_loop remote_config ?E (JStr ''job-1'') (now ?E (world after_upload)) 120 after_upload"
    by blast
  from T h2 have c2: "poll_loop remote_config ?E (JStr ''job-1'') 3 120 timed_out
       = Some (Inl (LoginError ''2Captcha timeout''), timed_out)"
    by blast
  from T h3 have "poll_loop remote_config ?E (JStr ''job-1'') 3 120 after_upload =
            (if eq_one (case map_of ?kvs ''status'' of None \<Rightarrow> JNull | Some v \<Rightarrow> v)
             then (case map_of ?kvs ''request'' of
                     None \<Rightarrow> Some (Inr [], after_poll)
                   | Some (JStr t) \<Rightarrow>
                       Some (Inr (if length (clean_text t) = 4 then clean_text t else []), after_poll)
                   | Some _ \<Rightarrow> Some (Inl (TypeError ''expected string''), after_poll))
             else if map_of ?kvs ''request'' = Some (JStr ''CAPCHA_NOT_READY'')
               then poll_loop remote_config ?E (JStr ''job-1'') 3 120 after_poll
             else Some (Inl (LoginError (''2Captcha error: '' @ py_str ?E (JDict ?kvs))), after_poll))"
    by blast
  then have c3: "poll_loop remote_config ?E (JStr ''job-1'') 3 120 after_upload
       = Some (Inr [], after_poll)"
    by (simp add: in_class_def)
  from T c3 have c4: "\<exists>n. trace after_poll = trace after_upload @ polls remote_config (JStr ''job-1'') n"
    by blast
  from T h5 have c5: "\<exists>r s' n. poll_loop remote_config ?E (JStr ''job-1'') 3 120 after_upload
                   = Some (r, s') \<and> n \<le> 24
          \<and> trace s' = trace after_upload @ polls remote_config (JStr ''job-1'') n"
    by blast
  from T h6 have c6: "solve_phase remote_config ?E 7 before_upload = Some (Inr (Done []), after_poll)"
    by blast
  show ?thesis
    using h1 c1 h2 c2 h3 c3 c4 h5 c5 h6 c6 by blast
qed

subsection \<open>Dashboard verification\<close>

lemma select_phase_not_ok: "select_phase C E False s = (Inr (Done ()), s)"
  by (simp add: select_phase_def)

lemma submit_phase_verifies:
  "send E Credentials (credentials_request C au ff tok code) s = (Inr resp, s1) \<Longrightarrow>
   interpret_result C E resp s1 = (Inr ok, s2) \<Longrightarrow>
   select_phase C E ok s2 = (Inr (Done ()), s3) \<Longrightarrow>
     submit_phase C E au ff tok code s = verify_dashboard C E s3"
  by (simp add: submit_phase_def then_do_def)

lemma verify_dashboard_fetches:
  "\<exists>evs. trace (snd (verify_dashboard C E s))
          = trace s @ Http Dashboard (session_get (DASHBOARD_URL C) [] []) # evs"
proof -
  obtain r w where sd: "send E Dashboard (session_get (DASHBOARD_URL C) [] []) s
      = (r, \<lparr>world = w, trace = trace s @ [Http Dashboard (session_get (DASHBOARD_URL C) [] [])]\<rparr>)"
    by (rule send_cases)
  let ?s1 = "\<lparr>world = w, trace = trace s @ [Http Dashboard (session_get (DASHBOARD_URL C) [] [])]\<rparr>"
  have dbg: "\<exists>evs. trace (snd (debug_gets E us s1)) = trace s1 @ evs" for us s1
  proof (induction us arbitrary: s1)
    case Nil
    show ?case by simp
  next
    case (Cons u us)
    obtain r' w' where sd': "send E MeterDebug (session_get u [] []) s1
      = (r', \<lparr>world = w', trace = trace s1 @ [Http MeterDebug (session_get u [] [])]\<rparr>)"
      by (rule send_cases)
    from Cons.IH[of "\<lparr>world = w', trace = trace s1 @ [Http MeterDebug (session_get u [] [])]\<rparr>"]
    show ?case by (auto simp add: sd' split: sum.splits)
  qed
  from dbg[of _ ?s1] obtain evs where
    e: "trace (snd (dump_meter_debug C E ?s1)) = trace ?s1 @ evs"
    unfolding dump_meter_debug_def by blast
  show ?thesis
    using e by (auto simp add: verify_dashboard_def then_do_def sd split: sum.splits prod.splits)
qed

lemma verify_dashboard_done:
  assumes "verify_dashboard C E s = (Inr (Done html), s')"
  shows "contains html ''card_1''
       \<and> (\<exists>dash sd. send E Dashboard (session_get (DASHBOARD_URL C) [] []) s = (Inr dash, sd)
             \<and> html = resp_text dash)"
  using assms
  by (auto simp add: verify_dashboard_def then_do_def split: sum.splits prod.splits if_splits)

lemma verify_dashboard_no_marker:
  assumes "send E Dashboard (session_get (DASHBOARD_URL C) [] []) s = (Inr dash, sd)"
    and "\<not> contains (resp_text dash) ''card_1''"
  shows "fst (verify_dashboard C E s) \<noteq> Inr (Done h)"
  using assms
  by (auto simp add: verify_dashboard_def then_do_def split: sum.splits prod.splits if_splits)

lemma verify_dashboard_marker:
  "verify_dashboard C E s = (Inr (Done html), s') \<Longrightarrow> contains html ''card_1''"
  using verify_dashboard_done by blast

lemma submit_phase_done:
  assumes "submit_phase C E au ff tok code s = (Inr (Done html), s')"
  shows "contains html ''card_1''"
  using assms
  by (auto simp add: submit_phase_def then_do_def dest: verify_dashboard_marker
      split: sum.splits prod.splits step.splits)

lemma attempt_body_done:
  assumes "attempt_body C E a s = Some (Inr (Done html), s')"
  shows "contains html ''card_1''"
  using assms
  by (auto simp add: attempt_body_def dest: submit_phase_done sym
      split: sum.splits prod.splits step.splits option.splits)

lemma attempts_loop_done:
  "attempts_loop C E as s = Some (Inr html, s') \<Longrightarrow> contains html ''card_1''"
proof (induction as arbitrary: s)
  case Nil
  then show ?case by simp
next
  case (Cons a as)
  then show ?case
    by (auto dest: attempt_body_done split: option.splits sum.splits prod.splits step.splits)
qed

lemma login_done:
  "login_and_get_dashboard C E s = Some (Inr html, s') \<Longrightarrow> contains html ''card_1''"
  by (auto simp add: login_and_get_dashboard_def dest: attempts_loop_done split: if_splits)

text \<open>
  Claim C8. An attempt that comes to the verification step, which is every attempt whose
  submission was not taken as a provisional success and every attempt in which the meter
  selection, when it runs, did not fail, fetches the dashboard next, whatever
  \<^verbatim>\<open>login_ok\<close> was. The attempt returns a page only if that page is the text of the
  dashboard response and contains the marker \<^verbatim>\<open>card_1\<close>; without the marker the
  attempt does not return, even when the JSON status was true; and whatever the run
  returns contains the marker.
\<close>

theorem dashboard_marker_decides:
  "select_phase C E False s2 = (Inr (Done ()), s2)
   \<and> (send E Credentials (credentials_request C au ff tok code) s = (Inr resp, s1)
        \<and> interpret_result C E resp s1 = (Inr ok, s2')
        \<and> select_phase C E ok s2' = (Inr (Done ()), s3)
      \<longrightarrow> submit_phase C E au ff tok code s = verify_dashboard C E s3)
   \<and> (\<exists>evs. trace (snd (verify_dashboard C E s3))
                = trace s3 @ Http Dashboard (session_get (DASHBOARD_URL C) [] []) # evs)
   \<and> (\<forall>html s'. verify_dashboard C E s3 = (Inr (Done html), s')
         \<longrightarrow> contains html ''card_1''
             \<and> (\<exists>dash sd. send E Dashboard (session_get (DASHBOARD_URL C) [] []) s3 = (Inr dash, sd)
                   \<and> html = resp_text dash))
   \<and> (\<forall>dash sd h. send E Dashboard (session_get (DASHBOARD_URL C) [] []) s3 = (Inr dash, sd)
           \<and> \<not> contains (resp_text dash) ''card_1''
         \<longrightarrow> fst (verify_dashboard C E s3) \<noteq> Inr (Done h))
   \<and> (\<forall>html s'. login_and_get_dashboard C E s0 = Some (Inr html, s')
         \<longrightarrow> contains html ''card_1'')"
proof (intro conjI allI impI)
  show "select_phase C E False s2 = (Inr (Done ()), s2)"
    by (rule select_phase_not_ok)
next
  assume "send E Credentials (credentials_request C au ff tok code) s = (Inr resp, s1)
        \<and> interpret_result C E resp s1 = (Inr ok, s2')
        \<and> select_phase C E ok s2' = (Inr (Done ()), s3)"
  then show "submit_phase C E au ff tok code s = verify_dashboard C E s3"
    by (auto simp: submit_phase_verifies)
next
  show "\<exists>evs. trace (snd (verify_dashboard C E s3))
                = trace s3 @ Http Dashboard (session_get (DASHBOARD_URL C) [] []) # evs"
    by (rule verify_dashboard_fetches)
next
  fix html s'
  assume v: "verify_dashboard C E s3 = (Inr (Done html), s')"
  from verify_dashboard_done[OF v]
  show "contains html ''card_1''"
    and "\<exists>dash sd. send E Dashboard (session_get (DASHBOARD_URL C) [] []) s3 = (Inr dash, sd)
                   \<and> html = resp_text dash"
    by blast+
next
  fix dash sd h
  assume "send E Dashboard (session_get (DASHBOARD_URL C) [] []) s3 = (Inr dash, sd)
           \<and> \<not> contains (resp_text dash) ''card_1''"
  then show "fst (verify_dashboard C E s3) \<noteq> Inr (Done h)"
    using verify_dashboard_no_marker by blast
next
  fix html s'
  assume "login_and_get_dashboard C E s0 = Some (Inr html, s')"
  then show "contains html ''card_1''" by (rule login_done)
qed

theorem dashboard_marker_decides_witness:
  "(send (stub_env (\<lambda>n. [])) Credentials empty_code_request before_submit
        = (Inr submit_answer, after_submit)
      \<and> interpret_result remote_config (stub_env (\<lambda>n. [])) submit_answer after_submit
        = (Inr True, after_submit)
      \<and> select_phase remote_config (stub_env (\<lambda>n. [])) True after_submit
        = (Inr (Done ()), after_submit))
   \<and> submit_phase remote_config (stub_env (\<lambda>n. [])) ''https://portal/login/submit''
         [(''__RequestVerificationToken'', ''tok''), (''Captcha'', [])] ''tok'' [] before_submit
       = verify_dashboard remote_config (stub_env (\<lambda>n. [])) after_submit
   \<and> fst (verify_dashboard remote_config (stub_env (\<lambda>n. [])) after_submit)
       = Inr (Done ''<div id=card_1>'')
   \<and> contains ''<div id=card_1>'' ''card_1''
   \<and> (send (stub_env (\<lambda>n. [])) Dashboard (session_get (DASHBOARD_URL no_marker_config) [] [])
          after_submit
        = (Inr blank_answer,
           \<lparr>world = 11,
            trace = [Http Credentials empty_code_request,
                     Http Dashboard (session_get (DASHBOARD_URL no_marker_config) [] [])]\<rparr>)
      \<and> \<not> contains (resp_text blank_answer) ''card_1'')
   \<and> fst (verify_dashboard no_marker_config (stub_env (\<lambda>n. [])) after_submit)
       \<noteq> Inr (Done ''<div id=card_1>'')
   \<and> (\<exists>s'. login_and_get_dashboard remote_config (stub_env (\<lambda>n. [])) start
              = Some (Inr ''<div id=card_1>'', s'))"
proof -
  let ?E = "stub_env (\<lambda>n. []) :: (nat, nat) env"
  let ?ff = "[(''__RequestVerificationToken'', ''tok''), (''Captcha'', [])]"
  obtain fin where v: "verify_dashboard remote_config ?E after_submit
      = (Inr (Done ''<div id=card_1>''), fin)"
    by (simp add: verify_dashboard_def remote_config_def stub_defs step_defs after_submit_def)
  note T = dashboard_marker_decides[where C = remote_config and E = ?E
      and au = "''https://portal/login/submit''" and ff = ?ff and tok = "''tok''" and code = "[]"
      and s = before_submit and resp = submit_answer and ?s1.0 = after_submit and ok = True
      and ?s2' = after_submit and ?s3.0 = after_submit and ?s0.0 = start]
  note U = dashboard_marker_decides[where C = no_marker_config and E = ?E
      and ?s3.0 = after_submit]
  have h1: "send ?E Credentials (credentials_request remote_config ''https://portal/login/submit''
                ?ff ''tok'' []) before_submit = (Inr submit_answer, after_submit)
      \<and> interpret_result remote_config ?E submit_answer after_submit = (Inr True, after_submit)
      \<and> select_phase remote_config ?E True after_submit = (Inr (Done ()), after_submit)"
    by (simp add: remote_config_def stub_defs step_defs credentials_request_def
        interpret_result_def select_phase_def submit_answer_def before_submit_def
        after_submit_def empty_code_request_def)
  from T h1 have c1: "submit_phase remote_config ?E ''https://portal/login/submit'' ?ff ''tok'' []
        before_submit = verify_dashboard remote_config ?E after_submit"
    by blast
  from T v have c2: "contains ''<div id=card_1>'' ''card_1''" by blast
  have h3: "send ?E Dashboard (session_get (DASHBOARD_URL no_marker_config) [] []) after_submit
        = (Inr blank_answer,
           \<lparr>world = 11,
            trace = [Http Credentials empty_code_request,
                     Http Dashboard (session_get (DASHBOARD_URL no_marker_config) [] [])]\<rparr>)
      \<and> \<not> contains (resp_text blank_answer) ''card_1''"
    by (simp add: no_marker_config_def remote_config_def stub_defs step_defs blank_answer_def
        after_submit_def)
  from U h3 have c3: "fst (verify_dashboard no_marker_config ?E after_submit)
       \<noteq> Inr (Done ''<div id=card_1>'')"
    by blast
  show ?thesis
    using h1 c1 v c2 h3 c3 remote_run by (simp add: empty_code_request_def)
qed

subsection \<open>Meter selection\<close>















end
